theory Spec2Isabelle
  imports Main
begin

section \<open>Strings\<close>

text \<open>
  A Python \<open>str\<close> is modelled as a \<^typ>\<open>string\<close>, one \<^typ>\<open>char\<close> per code point;
  the model therefore covers the code points below 256. The functions of this section
  are the \<open>str\<close> methods and conversions the script calls.
\<close>

definition isspace :: "char \<Rightarrow> bool" where
  \<comment> \<open>\<open>str.isspace\<close> on one code point below 256: TAB..CR, FS..US, space, NEL, NBSP\<close>
  "isspace c =
     (let n = (of_char c :: nat)
      in (9 \<le> n \<and> n \<le> 13) \<or> (28 \<le> n \<and> n \<le> 32) \<or> n = 133 \<or> n = 160)"

definition strip :: "string \<Rightarrow> string" where
  \<comment> \<open>\<open>str.strip()\<close>: leading and trailing whitespace removed\<close>
  "strip s = rev (dropWhile isspace (rev (dropWhile isspace s)))"

definition startswith :: "string \<Rightarrow> string \<Rightarrow> bool" where
  \<comment> \<open>\<open>s.startswith(p)\<close>\<close>
  "startswith s p = (take (length p) s = p)"

fun split_comma :: "string \<Rightarrow> string list" where
  \<comment> \<open>\<open>s.split(',')\<close>: never empty, \<open>''.split(',') == ['']\<close>\<close>
  "split_comma [] = [[]]"
| "split_comma (c # cs) =
     (if c = CHR '','' then [] # split_comma cs
      else (case split_comma cs of
              [] \<Rightarrow> [[c]]
            | p # ps \<Rightarrow> (c # p) # ps))"

definition digit_char :: "int \<Rightarrow> char" where
  "digit_char d = char_of (48 + d)"

function str_digits :: "int \<Rightarrow> string" where
  \<comment> \<open>the decimal digits of a number that is not negative\<close>
  "str_digits n =
     (if n < 10 then [digit_char n] else str_digits (n div 10) @ [digit_char (n mod 10)])"
  by pat_completeness auto
termination
  by (relation "measure nat") auto

declare str_digits.simps [simp del]

definition str_int :: "int \<Rightarrow> string" where
  \<comment> \<open>\<open>str(i)\<close>, which is what an f-string writes for an \<open>int\<close>\<close>
  "str_int i = (if i < 0 then CHR ''-'' # str_digits (- i) else str_digits i)"

section \<open>Directory Scanner\<close>

type_synonym path = string

text \<open>
  A directory is observed as the list of its entries, each a path with its modification
  time, in the order \<open>glob\<close> yields them. \<open>sorted\<close> is stable, and so is
  \<^const>\<open>sort_key\<close>.
\<close>

definition is_txt :: "path \<Rightarrow> bool" where
  \<comment> \<open>the glob pattern \<open>*.txt\<close>\<close>
  "is_txt p = (length p \<ge> 4 \<and> drop (length p - 4) p = ''.txt'')"

definition list_txt_files :: "(path \<times> int) list \<Rightarrow> path list" where
  \<comment> \<open>the listing, for entries that \<open>stat\<close> has given their times; the \<open>stat\<close> that can
      raise is in \<open>scan_directory\<close> below\<close>
  "list_txt_files entries = map fst (sort_key snd (filter (\<lambda>e. is_txt (fst e)) entries))"

fun index_of :: "'a \<Rightarrow> 'a list \<Rightarrow> nat option" where
  \<comment> \<open>\<open>files.index(x)\<close>: the first position of \<open>x\<close>; \<open>None\<close> stands for \<open>ValueError\<close>\<close>
  "index_of x [] = None"
| "index_of x (y # ys) =
     (if y = x then Some 0
      else (case index_of x ys of None \<Rightarrow> None | Some i \<Rightarrow> Some (Suc i)))"

definition find_next_file :: "path \<Rightarrow> path list \<Rightarrow> path option" where
  "find_next_file current files =
     (case index_of current files of
        None \<Rightarrow> (if files \<noteq> [] then Some (last files) else None)
      | Some idx \<Rightarrow> (if idx + 1 < length files then Some (files ! (idx + 1)) else None))"

section \<open>Exceptions\<close>

datatype value_error =
    No_Match string      \<comment> \<open>"time data ... does not match format ..."\<close>
  | Unconverted string   \<comment> \<open>"unconverted data remains: ..."\<close>
  | Bad_Date int int int \<comment> \<open>\<open>datetime.date(year, month, day)\<close> refused the fields\<close>
  | Negative_Sleep       \<comment> \<open>"sleep length must be non-negative"\<close>

datatype exn =
    KeyboardInterrupt
  | ValueError value_error
  | CalledProcessError int string string  \<comment> \<open>\<open>returncode\<close>, \<open>stderr\<close>, \<open>stdout\<close>\<close>
  | TimeoutExpired
  | FileNotFoundError
  | OverflowError
  | OtherError string

definition is_Exception :: "exn \<Rightarrow> bool" where
  \<comment> \<open>what \<open>except Exception\<close> catches: \<open>KeyboardInterrupt\<close> derives from \<open>BaseException\<close> only\<close>
  "is_Exception e = (e \<noteq> KeyboardInterrupt)"

section \<open>Timestamp conversion\<close>

text \<open>
  \<open>iso_z_to_ns\<close> calls \<open>time.strptime\<close> and \<open>calendar.timegm\<close> of the Python standard
  library. What they do on the one format string the script passes,
  \<open>"%Y-%m-%dT%H:%M:%SZ"\<close>, is written out here: the regular expression \<open>_strptime\<close>
  compiles from the format (each directive's pattern of \<open>TimeRE\<close>, the other characters
  literally), matched from the start of the string with backtracking and
  \<open>re.IGNORECASE\<close>; the test that nothing of the string is left; the check of
  \<open>datetime.date\<close> on year, month and day; and the arithmetic of \<open>timegm\<close>.
\<close>

datatype rx =
    Lit char       \<comment> \<open>one character, compared ignoring case\<close>
  | Dig            \<comment> \<open>\<open>\d\<close>\<close>
  | Rng char char  \<comment> \<open>\<open>[a-b]\<close>\<close>
  | Cat rx rx      \<comment> \<open>concatenation\<close>
  | Alt rx rx      \<comment> \<open>\<open>r1|r2\<close>, the left alternative tried first\<close>
  | Grp rx         \<comment> \<open>a capturing group\<close>

definition lower_ascii :: "char \<Rightarrow> char" where
  "lower_ascii c =
     (let n = (of_char c :: nat) in if 65 \<le> n \<and> n \<le> 90 then char_of (n + 32) else c)"

definition is_digit :: "char \<Rightarrow> bool" where
  "is_digit c = (48 \<le> (of_char c :: nat) \<and> (of_char c :: nat) \<le> 57)"

definition in_range :: "char \<Rightarrow> char \<Rightarrow> char \<Rightarrow> bool" where
  "in_range a b c = ((of_char a :: nat) \<le> of_char c \<and> (of_char c :: nat) \<le> of_char b)"

fun rx_match :: "rx \<Rightarrow> string \<Rightarrow> (string list \<times> string) list" where
  \<comment> \<open>every way to match a prefix of the string, in the order a backtracking matcher finds
      them: the groups captured and the rest of the string\<close>
  "rx_match (Lit c) [] = []"
| "rx_match (Lit c) (x # xs) = (if lower_ascii x = lower_ascii c then [([], xs)] else [])"
| "rx_match Dig [] = []"
| "rx_match Dig (x # xs) = (if is_digit x then [([], xs)] else [])"
| "rx_match (Rng a b) [] = []"
| "rx_match (Rng a b) (x # xs) = (if in_range a b x then [([], xs)] else [])"
| "rx_match (Cat r1 r2) s =
     concat (map (\<lambda>(g1, s1). map (\<lambda>(g2, s2). (g1 @ g2, s2)) (rx_match r2 s1)) (rx_match r1 s))"
| "rx_match (Alt r1 r2) s = rx_match r1 s @ rx_match r2 s"
| "rx_match (Grp r) s =
     map (\<lambda>(g, s'). (g @ [take (length s - length s') s], s')) (rx_match r s)"

definition re_Y :: rx where
  \<comment> \<open>\<open>(?P<Y>\d\d\d\d)\<close>\<close>
  "re_Y = Grp (Cat Dig (Cat Dig (Cat Dig Dig)))"

definition re_m :: rx where
  \<comment> \<open>\<open>(?P<m>1[0-2]|0[1-9]|[1-9])\<close>\<close>
  "re_m = Grp (Alt (Cat (Lit CHR ''1'') (Rng CHR ''0'' CHR ''2''))
              (Alt (Cat (Lit CHR ''0'') (Rng CHR ''1'' CHR ''9''))
                   (Rng CHR ''1'' CHR ''9'')))"

definition re_d :: rx where
  \<comment> \<open>\<open>(?P<d>3[0-1]|[1-2]\d|0[1-9]|[1-9]| [1-9])\<close>\<close>
  "re_d = Grp (Alt (Cat (Lit CHR ''3'') (Rng CHR ''0'' CHR ''1''))
              (Alt (Cat (Rng CHR ''1'' CHR ''2'') Dig)
              (Alt (Cat (Lit CHR ''0'') (Rng CHR ''1'' CHR ''9''))
              (Alt (Rng CHR ''1'' CHR ''9'')
                   (Cat (Lit CHR '' '') (Rng CHR ''1'' CHR ''9''))))))"

definition re_H :: rx where
  \<comment> \<open>\<open>(?P<H>2[0-3]|[0-1]\d|\d)\<close>\<close>
  "re_H = Grp (Alt (Cat (Lit CHR ''2'') (Rng CHR ''0'' CHR ''3''))
              (Alt (Cat (Rng CHR ''0'' CHR ''1'') Dig)
                   Dig))"

definition re_M :: rx where
  \<comment> \<open>\<open>(?P<M>[0-5]\d|\d)\<close>\<close>
  "re_M = Grp (Alt (Cat (Rng CHR ''0'' CHR ''5'') Dig) Dig)"

definition re_S :: rx where
  \<comment> \<open>\<open>(?P<S>6[0-1]|[0-5]\d|\d)\<close>\<close>
  "re_S = Grp (Alt (Cat (Lit CHR ''6'') (Rng CHR ''0'' CHR ''1''))
              (Alt (Cat (Rng CHR ''0'' CHR ''5'') Dig)
                   Dig))"

definition iso_z_regex :: rx where
  \<comment> \<open>\<open>TimeRE.pattern("%Y-%m-%dT%H:%M:%SZ")\<close>\<close>
  "iso_z_regex =
     Cat re_Y (Cat (Lit CHR ''-'') (Cat re_m (Cat (Lit CHR ''-'') (Cat re_d (Cat (Lit CHR ''T'')
    (Cat re_H (Cat (Lit CHR '':'') (Cat re_M (Cat (Lit CHR '':'') (Cat re_S (Lit CHR ''Z'')))))))))))"

definition py_int :: "string \<Rightarrow> int" where
  \<comment> \<open>\<open>int(s)\<close> on what the groups capture: decimal digits, after a blank for \<open>%d\<close>\<close>
  "py_int s = foldl (\<lambda>a c. 10 * a + (int (of_char c) - 48)) 0 (strip s)"

definition is_leap :: "int \<Rightarrow> bool" where
  "is_leap year = (year mod 4 = 0 \<and> (year mod 100 \<noteq> 0 \<or> year mod 400 = 0))"

definition DAYS_IN_MONTH :: "int list" where
  "DAYS_IN_MONTH = [-1, 31, 28, 31, 30, 31, 30, 31, 31, 30, 31, 30, 31]"

definition DAYS_BEFORE_MONTH :: "int list" where
  "DAYS_BEFORE_MONTH = [-1, 0, 31, 59, 90, 120, 151, 181, 212, 243, 273, 304, 334]"

definition days_before_year :: "int \<Rightarrow> int" where
  "days_before_year year = (let y = year - 1 in y * 365 + y div 4 - y div 100 + y div 400)"

definition days_in_month :: "int \<Rightarrow> int \<Rightarrow> int" where
  "days_in_month year month =
     (if month = 2 \<and> is_leap year then 29 else DAYS_IN_MONTH ! nat month)"

definition days_before_month :: "int \<Rightarrow> int \<Rightarrow> int" where
  "days_before_month year month =
     DAYS_BEFORE_MONTH ! nat month + (if month > 2 \<and> is_leap year then 1 else 0)"

definition ymd2ord :: "int \<Rightarrow> int \<Rightarrow> int \<Rightarrow> int" where
  \<comment> \<open>\<open>date(year, month, day).toordinal()\<close>: 1 for 0001-01-01\<close>
  "ymd2ord year month day = days_before_year year + days_before_month year month + day"

definition check_date_fields :: "int \<Rightarrow> int \<Rightarrow> int \<Rightarrow> bool" where
  \<comment> \<open>the fields \<open>datetime.date\<close> accepts; it raises \<open>ValueError\<close> on the others\<close>
  "check_date_fields year month day =
     (1 \<le> year \<and> year \<le> 9999 \<and> 1 \<le> month \<and> month \<le> 12 \<and>
      1 \<le> day \<and> day \<le> days_in_month year month)"

definition strptime_iso_z :: "string \<Rightarrow> exn + (int \<times> int \<times> int \<times> int \<times> int \<times> int)" where
  \<comment> \<open>\<open>time.strptime(data_string, "%Y-%m-%dT%H:%M:%SZ")\<close>, the first six fields\<close>
  "strptime_iso_z data_string =
     (case rx_match iso_z_regex data_string of
        [] \<Rightarrow> Inl (ValueError (No_Match data_string))
      | (groups, rest) # _ \<Rightarrow>
          if rest \<noteq> [] then Inl (ValueError (Unconverted rest))
          else (case map py_int groups of
                  [year, month, day, hour, minute, second] \<Rightarrow>
                    if check_date_fields year month day
                    then Inr (year, month, day, hour, minute, second)
                    else Inl (ValueError (Bad_Date year month day))
                | _ \<Rightarrow> Inl (ValueError (No_Match data_string))))"

definition EPOCH_ORD :: int where
  "EPOCH_ORD = ymd2ord 1970 1 1"

fun timegm :: "int \<times> int \<times> int \<times> int \<times> int \<times> int \<Rightarrow> int" where
  "timegm (year, month, day, hour, minute, second) =
     (let days = ymd2ord year month 1 - EPOCH_ORD + day - 1;
          hours = days * 24 + hour;
          minutes = hours * 60 + minute;
          seconds = minutes * 60 + second
      in seconds)"

definition iso_z_to_ns :: "string \<Rightarrow> exn + int" where
  "iso_z_to_ns iso_z =
     (case strptime_iso_z iso_z of
        Inl e \<Rightarrow> Inl e
      | Inr tt \<Rightarrow> Inr (timegm tt * 1000000000))"

section \<open>Configuration constants\<close>

definition HOST :: string where "HOST = ''hostname''"
definition PORT :: string where "PORT = ''8086''"
definition INFLUXDB_DB_NAME :: string where "INFLUXDB_DB_NAME = ''influxdb_name''"
definition MEASUREMENT :: string where "MEASUREMENT = ''mydatameasurement''"
definition CHECK_INTERVAL :: int where "CHECK_INTERVAL = 60"

definition INFLUXDB_URL :: string where
  "INFLUXDB_URL = ''http://'' @ HOST @ '':'' @ PORT @ ''/write?db='' @ INFLUXDB_DB_NAME"

section \<open>The world the script runs in, and its state\<close>

text \<open>
  Everything outside the script is a \<open>world\<close>: what it answers depends on a logical time,
  the number of \<open>time.sleep\<close> calls the script has completed, so that files can grow and
  appear while the script sleeps. A file's text is what the text-mode handle yields
  (decoded, line ends as \<open>\n\<close>). What the script does to the world is recorded, in order,
  as a list of events.

  The world raises where the script opens the current file, calls \<open>stat\<close> on an entry of
  the directory, runs \<open>curl\<close> and sleeps. The log file is taken to be writable, and a read
  from an open file and a \<open>print\<close> to succeed.
\<close>

datatype event =
    Opened path              \<comment> \<open>\<open>current.open(...)\<close> succeeded\<close>
  | Read string              \<comment> \<open>\<open>f.readline()\<close> returned this (empty at end of file)\<close>
  | Sleep int                \<comment> \<open>\<open>time.sleep(wait_time)\<close>\<close>
  | Logged string            \<comment> \<open>appended to the log file\<close>
  | Printed string           \<comment> \<open>\<open>print(...)\<close>\<close>
  | Ran "string list" int    \<comment> \<open>\<open>subprocess.run(cmd, ..., timeout=timeout)\<close>\<close>

record world =
  file_text :: "nat \<Rightarrow> path \<Rightarrow> string"               \<comment> \<open>the text of a file at a time\<close>
  open_error :: "nat \<Rightarrow> path \<Rightarrow> exn option"          \<comment> \<open>what opening a file raises, if anything\<close>
  dir_entries :: "nat \<Rightarrow> (path \<times> int) list"          \<comment> \<open>the start file's directory at a time\<close>
  stat_error :: "nat \<Rightarrow> path \<Rightarrow> exn option"          \<comment> \<open>what \<open>p.stat()\<close> raises for an entry, if anything\<close>
  run_curl :: "nat \<Rightarrow> string list \<Rightarrow> int \<Rightarrow> exn option" \<comment> \<open>what \<open>subprocess.run\<close> raises for a command and timeout\<close>
  interrupt :: "nat \<Rightarrow> bool"                          \<comment> \<open>the sleep begun at this time is interrupted\<close>
  utcnow :: "nat \<Rightarrow> string"                           \<comment> \<open>the clock, formatted \<open>%Y-%m-%d %H:%M:%S GMT\<close>\<close>
  str_exn :: "exn \<Rightarrow> string"                          \<comment> \<open>\<open>str(e)\<close>\<close>
  is_file :: "path \<Rightarrow> bool"                           \<comment> \<open>\<open>start_file.is_file()\<close>\<close>

record state =
  current :: path        \<comment> \<open>the file being read\<close>
  handle_pos :: nat      \<comment> \<open>the read position of the open handle, in characters\<close>
  line_no :: int         \<comment> \<open>the local \<open>line_number\<close> of \<open>process_files\<close>\<close>
  clock :: nat           \<comment> \<open>sleeps completed so far\<close>
  events :: "event list"

datatype sender = Sender (url: string)

section \<open>Functions and classes of the script\<close>

definition log :: "world \<Rightarrow> string \<Rightarrow> state \<Rightarrow> state" where
  "log w message st =
     st\<lparr>events := events st @ [Logged (utcnow w (clock st) @ '' '' @ message @ [CHR 0x0A])]\<rparr>"

definition py_print :: "string \<Rightarrow> state \<Rightarrow> state" where
  "py_print message st = st\<lparr>events := events st @ [Printed message]\<rparr>"

definition curl_error_text :: "world \<Rightarrow> int \<Rightarrow> exn \<Rightarrow> string" where
  \<comment> \<open>the text \<open>send\<close> logs and prints for the exception it caught\<close>
  "curl_error_text w timeout e =
     (case e of
        CalledProcessError returncode stderr stdout \<Rightarrow>
          ''[ERROR] curl exited with code '' @ str_int returncode @ '': '' @
          strip (if stderr \<noteq> [] then stderr else if stdout \<noteq> [] then stdout else [])
      | TimeoutExpired \<Rightarrow>
          ''[ERROR] curl timeout after '' @ str_int timeout @ ''s: '' @ str_exn w e
      | FileNotFoundError \<Rightarrow> ''[ERROR] curl not found on PATH''
      | _ \<Rightarrow> ''[ERROR] Unexpected error during curl: '' @ str_exn w e)"

definition send :: "world \<Rightarrow> sender \<Rightarrow> string \<Rightarrow> int \<Rightarrow> state \<Rightarrow> exn option \<times> state" where
  \<comment> \<open>\<open>Sender.send\<close>: \<open>None\<close> when it returns, \<open>Some e\<close> when it raises \<open>e\<close>\<close>
  "send w self line_protocol timeout st =
     (let cmd = [''curl'', ''-f'', ''-sS'', ''-XPOST'', url self, ''--data-binary'', line_protocol];
          st1 = st\<lparr>events := events st @ [Ran cmd timeout]\<rparr>
      in case run_curl w (clock st) cmd timeout of
           None \<Rightarrow> (None, st1)
         | Some e \<Rightarrow>
             if is_Exception e
             then (Some e, py_print (curl_error_text w timeout e) (log w (curl_error_text w timeout e) st1))
             else (Some e, st1))"

definition process_line :: "world \<Rightarrow> string \<Rightarrow> sender \<Rightarrow> int \<Rightarrow> state \<Rightarrow> exn option \<times> state" where
  \<comment> \<open>\<open>None\<close> when it returns, \<open>Some e\<close> when it raises \<open>e\<close>\<close>
  "process_line w line sender line_number st =
     (let handler = (\<lambda>e s.
            if is_Exception e
            then (Some e, log w (''[ERROR] Parse failed on Line '' @ str_int line_number @ '' : '' @ line @
                                 '' | Reason: '' @ str_exn w e) s)
            else (Some e, s));
          parts = split_comma line;
          expected_len = 2 + 15 + 1
      in if length parts \<noteq> expected_len
         then (None, log w (''[SKIP] Unexpected 'expected_len' in line '' @ str_int line_number @ '' : '' @ line) st)
         else
           (let host = parts ! 1;
                measurement_time_str = last parts
            in case iso_z_to_ns measurement_time_str of
                 Inl e \<Rightarrow> handler e st
               | Inr measurement_time \<Rightarrow>
                   (let t1 = parts ! 2; t2 = parts ! 3; t3 = parts ! 4; t4 = parts ! 5;
                        pwr1 = parts ! 6; pwr2 = parts ! 7; pwr3 = parts ! 8; pwr4 = parts ! 9;
                        LEDamp = parts ! 10; LEDwidth = parts ! 11; Threshold = parts ! 12;
                        v1 = parts ! 13; v2 = parts ! 14; v3 = parts ! 15; v4 = parts ! 16;
                        tags = ''host='' @ host;
                        fields = ''T1='' @ t1 @ '',T2='' @ t2 @ '',T3='' @ t3 @ '',T4='' @ t4 @
                                 '',Pwr1='' @ pwr1 @ '',Pwr2='' @ pwr2 @ '',Pwr3='' @ pwr3 @ '',Pwr4='' @ pwr4 @
                                 '',LEDamp='' @ LEDamp @ '',LEDwidth='' @ LEDwidth @ '',Threshold='' @ Threshold @
                                 '',V1='' @ v1 @ '',V2='' @ v2 @ '',V3='' @ v3 @ '',V4='' @ v4;
                        line_protocol = MEASUREMENT @ '','' @ tags @ '' '' @ fields @ '' '' @ str_int measurement_time;
                        st1 = py_print (''[PARSED] Line '' @ str_int line_number @ '' : host='' @ host @ '', '' @
                                        fields @ '', time='' @ str_int measurement_time) st
                    in case send w sender line_protocol 10 st1 of
                         (Some e, st2) \<Rightarrow> handler e st2
                       | (None, st2) \<Rightarrow>
                           (None, log w (''[PARSED] Line '' @ str_int line_number @ '' : '' @ line) st2))))"

section \<open>The main logic\<close>

fun readline_text :: "string \<Rightarrow> string" where
  \<comment> \<open>the first line of a text, its \<open>\n\<close> included; empty only for the empty text\<close>
  "readline_text [] = []"
| "readline_text (c # cs) = (if c = CHR 0x0A then [c] else c # readline_text cs)"

definition readline :: "world \<Rightarrow> state \<Rightarrow> string \<times> state" where
  \<comment> \<open>\<open>f.readline()\<close> on the handle of the current file\<close>
  "readline w st =
     (let line = readline_text (drop (handle_pos st) (file_text w (clock st) (current st)))
      in (line, st\<lparr>handle_pos := handle_pos st + length line, events := events st @ [Read line]\<rparr>))"

definition sleep :: "world \<Rightarrow> int \<Rightarrow> state \<Rightarrow> exn option \<times> state" where
  \<comment> \<open>\<open>time.sleep(secs)\<close> for an \<open>int\<close>: it refuses a negative length, and one whose
      nanoseconds do not fit in 64 bits, before it sleeps; an interrupt during the sleep
      raises \<open>KeyboardInterrupt\<close>\<close>
  "sleep w secs st =
     (if secs < 0 then (Some (ValueError Negative_Sleep), st)
      else if 9223372036854775807 < secs * 1000000000 then (Some OverflowError, st)
      else
        (let st1 = st\<lparr>events := events st @ [Sleep secs]\<rparr>
         in if interrupt w (clock st) then (Some KeyboardInterrupt, st1)
            else (None, st1\<lparr>clock := clock st + 1\<rparr>)))"

definition scan_directory :: "world \<Rightarrow> nat \<Rightarrow> exn + path list" where
  \<comment> \<open>the call \<open>list_txt_files(directory)\<close> at a time: \<open>sorted\<close> asks every \<open>*.txt\<close> entry
      for its time, in the order of \<open>glob\<close>, and the first \<open>stat\<close> that raises ends the call\<close>
  "scan_directory w t =
     (case List.map_filter (stat_error w t) (filter is_txt (map fst (dir_entries w t))) of
        e # _ \<Rightarrow> Inl e
      | [] \<Rightarrow> Inr (list_txt_files (dir_entries w t)))"

datatype attempt =
    Processed      \<comment> \<open>\<open>process_line\<close> returned: the loop reaches \<open>continue\<close>\<close>
  | Not_Processed  \<comment> \<open>control falls through to the statement after the \<open>if line:\<close> block\<close>
  | Failed exn     \<comment> \<open>\<open>process_line\<close> raised\<close>

definition read_attempt :: "world \<Rightarrow> sender \<Rightarrow> state \<Rightarrow> attempt \<times> state" where
  \<comment> \<open>the block \<open>line = f.readline(); if line: ...\<close>, which the inner loop holds twice\<close>
  "read_attempt w sender st =
     (case readline w st of
        (line, st1) \<Rightarrow>
          if line \<noteq> [] then
            (let st2 = st1\<lparr>line_no := line_no st1 + 1\<rparr>;
                 line' = strip line
             in if startswith line' MEASUREMENT then
                  (case process_line w line' sender (line_no st2) st2 of
                     (Some e, st3) \<Rightarrow> (Failed e, st3)
                   | (None, st3) \<Rightarrow> (Processed, st3))
                else (Not_Processed, st2))
          else (Not_Processed, st1))"

datatype flow =
    Continue   \<comment> \<open>the inner loop goes round again\<close>
  | Break      \<comment> \<open>\<open>break\<close>: the outer loop opens the newer file\<close>
  | Raise exn  \<comment> \<open>an exception leaves both loops\<close>

definition inner_body :: "world \<Rightarrow> sender \<Rightarrow> int \<Rightarrow> state \<Rightarrow> flow \<times> state" where
  \<comment> \<open>one pass through the body of the inner \<open>while True\<close>\<close>
  "inner_body w sender wait_time st =
     (case read_attempt w sender st of
        (Failed e, st1) \<Rightarrow> (Raise e, st1)
      | (Processed, st1) \<Rightarrow> (Continue, st1)
      | (Not_Processed, st1) \<Rightarrow>
          (case sleep w wait_time st1 of
             (Some e, st2) \<Rightarrow> (Raise e, st2)
           | (None, st2) \<Rightarrow>
               (case read_attempt w sender st2 of
                  (Failed e, st3) \<Rightarrow> (Raise e, st3)
                | (Processed, st3) \<Rightarrow> (Continue, st3)
                | (Not_Processed, st3) \<Rightarrow>
                    (case scan_directory w (clock st3) of
                       Inl e \<Rightarrow> (Raise e, st3)
                     | Inr files \<Rightarrow>
                         (case find_next_file (current st3) files of
                            Some newer \<Rightarrow> (Break, st3\<lparr>current := newer\<rparr>)
                          | None \<Rightarrow> (Continue, st3))))))"

datatype run =
    Running state       \<comment> \<open>the loops are still going when the fuel is used up\<close>
  | Stopped exn state   \<comment> \<open>an exception left \<open>process_files\<close>\<close>

text \<open>
  Both loops of \<open>process_files\<close> are \<open>while True\<close>: they end by an exception only. The
  fuel bounds the number of passes (through either loop) that are followed.
\<close>

fun outer_loop :: "nat \<Rightarrow> world \<Rightarrow> sender \<Rightarrow> int \<Rightarrow> state \<Rightarrow> run"
  and inner_loop :: "nat \<Rightarrow> world \<Rightarrow> sender \<Rightarrow> int \<Rightarrow> state \<Rightarrow> run" where
  "outer_loop 0 w sender wait_time st = Running st"
| "outer_loop (Suc n) w sender wait_time st =
     (case open_error w (clock st) (current st) of
        Some e \<Rightarrow> Stopped e st
      | None \<Rightarrow>
          inner_loop n w sender wait_time
            ((log w (''[OPEN] Processing file: '' @ current st)
                (st\<lparr>handle_pos := 0, events := events st @ [Opened (current st)]\<rparr>))
             \<lparr>line_no := 0\<rparr>))"
| "inner_loop 0 w sender wait_time st = Running st"
| "inner_loop (Suc n) w sender wait_time st =
     (case inner_body w sender wait_time st of
        (Raise e, st1) \<Rightarrow> Stopped e st1
      | (Continue, st1) \<Rightarrow> inner_loop n w sender wait_time st1
      | (Break, st1) \<Rightarrow> outer_loop n w sender wait_time st1)"

definition initial_state :: "path \<Rightarrow> state" where
  "initial_state start_file =
     \<lparr>current = start_file, handle_pos = 0, line_no = 0, clock = 0, events = []\<rparr>"

definition process_files :: "nat \<Rightarrow> world \<Rightarrow> path \<Rightarrow> sender \<Rightarrow> int \<Rightarrow> run" where
  "process_files fuel w start_file sender wait_time =
     outer_loop fuel w sender wait_time (initial_state start_file)"



section \<open>Observations on a run\<close>

fun is_Ran :: "event \<Rightarrow> bool" where
  "is_Ran (Ran cmd timeout) = True"
| "is_Ran _ = False"

fun is_Sleep :: "event \<Rightarrow> bool" where
  "is_Sleep (Sleep secs) = True"
| "is_Sleep _ = False"

definition sends :: "state \<Rightarrow> event list" where
  \<comment> \<open>the transmissions attempted so far, in order\<close>
  "sends st = filter is_Ran (events st)"

definition exit_status :: "exn \<Rightarrow> int" where
  \<comment> \<open>the status \<open>main\<close> exits with when this exception leaves \<open>process_files\<close>\<close>
  "exit_status e = (if e = KeyboardInterrupt then 0 else 1)"

section \<open>Example worlds\<close>

text \<open>
  Worlds in which nothing changes while the script runs, used to run the script on
  concrete inputs: every listed file can be opened and asked for its time, the clock
  stands still, no interrupt arrives, and \<open>curl\<close> answers by the command it is given.
\<close>

definition static_world ::
  "(path \<Rightarrow> string) \<Rightarrow> (path \<times> int) list \<Rightarrow> (string list \<Rightarrow> exn option) \<Rightarrow> world" where
  "static_world texts entries curl =
     \<lparr>file_text = (\<lambda>t. texts),
      open_error = (\<lambda>t p. if p \<in> set (map fst entries) then None else Some FileNotFoundError),
      dir_entries = (\<lambda>t. entries),
      stat_error = (\<lambda>t p. None),
      run_curl = (\<lambda>t cmd timeout. curl cmd),
      interrupt = (\<lambda>t. False),
      utcnow = (\<lambda>t. ''2025-06-09 22:00:00 GMT''),
      str_exn = (\<lambda>e. ''error''),
      is_file = (\<lambda>p. p \<in> set (map fst entries))\<rparr>"

definition good_line :: string where
  \<comment> \<open>the line of the spec's end-to-end scenario\<close>
  "good_line = ''mydatameasurement,host1,1,2,3,4,5,6,7,8,9,10,11,12,13,14,15,2025-06-09T21:58:12Z''"

definition good_protocol :: string where
  "good_protocol = ''mydatameasurement,host=host1 T1=1,T2=2,T3=3,T4=4,Pwr1=5,Pwr2=6,Pwr3=7,Pwr4=8,LEDamp=9,LEDwidth=10,Threshold=11,V1=12,V2=13,V3=14,V4=15 1749506292000000000''"

definition nl :: string where
  "nl = [CHR 0x0A]"

definition world_header :: world where
  \<comment> \<open>one file: a comment line, then a record\<close>
  "world_header =
     static_world (\<lambda>p. if p = ''/d/a.txt'' then ''# header'' @ nl @ good_line @ nl else [])
       [(''/d/a.txt'', 10)] (\<lambda>cmd. None)"

definition world_two_junk :: world where
  \<comment> \<open>\<open>a.txt\<close> holds two lines without the marker, then a record; \<open>b.txt\<close> is newer and empty\<close>
  "world_two_junk =
     static_world
       (\<lambda>p. if p = ''/d/a.txt'' then ''junk1'' @ nl @ ''junk2'' @ nl @ good_line @ nl else [])
       [(''/d/a.txt'', 10), (''/d/b.txt'', 20)] (\<lambda>cmd. None)"

definition short_line :: string where
  \<comment> \<open>a line with the marker and four fields\<close>
  "short_line = ''mydatameasurement,host1,1,2''"

definition world_short :: world where
  \<comment> \<open>one file: a record cut short, then a whole record\<close>
  "world_short =
     static_world (\<lambda>p. if p = ''/d/a.txt'' then short_line @ nl @ good_line @ nl else [])
       [(''/d/a.txt'', 10)] (\<lambda>cmd. None)"

definition sendable :: "string \<Rightarrow> bool" where
  \<comment> \<open>a line as \<open>readline\<close> returns it that, once stripped, starts with the marker, splits
      into 18 fields and ends in a field \<open>iso_z_to_ns\<close> converts\<close>
  "sendable raw =
     (let line = strip raw
      in startswith line MEASUREMENT \<and> length (split_comma line) = 18 \<and>
         (case iso_z_to_ns (last (split_comma line)) of Inl e \<Rightarrow> False | Inr ns \<Rightarrow> True))"

fun is_sendable_Read :: "event \<Rightarrow> bool" where
  "is_sendable_Read (Read raw) = sendable raw"
| "is_sendable_Read _ = False"

text \<open>
  The texts \<open>process_line\<close> builds, named so that statements about it can mention them.
\<close>

definition fields_of :: "string list \<Rightarrow> string" where
  \<comment> \<open>the value of \<open>fields\<close> for the parts of a line\<close>
  "fields_of parts =
     ''T1='' @ parts ! 2 @ '',T2='' @ parts ! 3 @ '',T3='' @ parts ! 4 @ '',T4='' @ parts ! 5 @
     '',Pwr1='' @ parts ! 6 @ '',Pwr2='' @ parts ! 7 @ '',Pwr3='' @ parts ! 8 @ '',Pwr4='' @ parts ! 9 @
     '',LEDamp='' @ parts ! 10 @ '',LEDwidth='' @ parts ! 11 @ '',Threshold='' @ parts ! 12 @
     '',V1='' @ parts ! 13 @ '',V2='' @ parts ! 14 @ '',V3='' @ parts ! 15 @ '',V4='' @ parts ! 16"

definition line_protocol_of :: "string list \<Rightarrow> int \<Rightarrow> string" where
  \<comment> \<open>the value of \<open>line_protocol\<close> for the parts of a line and its time in nanoseconds\<close>
  "line_protocol_of parts measurement_time =
     MEASUREMENT @ '','' @ ''host='' @ parts ! 1 @ '' '' @ fields_of parts @ '' '' @
     str_int measurement_time"

definition parsed_text :: "string list \<Rightarrow> int \<Rightarrow> int \<Rightarrow> string" where
  \<comment> \<open>what \<open>process_line\<close> prints before it sends\<close>
  "parsed_text parts line_number measurement_time =
     ''[PARSED] Line '' @ str_int line_number @ '' : host='' @ parts ! 1 @ '', '' @
     fields_of parts @ '', time='' @ str_int measurement_time"

definition parse_failed_text :: "world \<Rightarrow> string \<Rightarrow> int \<Rightarrow> exn \<Rightarrow> string" where
  \<comment> \<open>what the handler of \<open>process_line\<close> logs\<close>
  "parse_failed_text w line line_number e =
     ''[ERROR] Parse failed on Line '' @ str_int line_number @ '' : '' @ line @
     '' | Reason: '' @ str_exn w e"

definition curl_cmd :: "sender \<Rightarrow> string \<Rightarrow> string list" where
  \<comment> \<open>the value of \<open>cmd\<close> in \<open>send\<close>\<close>
  "curl_cmd self line_protocol =
     [''curl'', ''-f'', ''-sS'', ''-XPOST'', url self, ''--data-binary'', line_protocol]"

fun state_of :: "run \<Rightarrow> state" where
  \<comment> \<open>the state a run has reached\<close>
  "state_of (Running st) = st"
| "state_of (Stopped e st) = st"





definition indented_line :: string where
  \<comment> \<open>the record of the scenario between two blanks and a blank\<close>
  "indented_line = ''  '' @ good_line @ '' ''"

definition world_indented :: world where
  \<comment> \<open>one file with one record, indented\<close>
  "world_indented =
     static_world (\<lambda>p. if p = ''/d/a.txt'' then indented_line @ nl else [])
       [(''/d/a.txt'', 10)] (\<lambda>cmd. None)"




definition loose_time_line :: string where
  \<comment> \<open>the record of the scenario, its time written without leading zeros\<close>
  "loose_time_line = ''mydatameasurement,host1,1,2,3,4,5,6,7,8,9,10,11,12,13,14,15,2025-6-9T1:2:3Z''"

definition world_loose_time :: world where
  "world_loose_time =
     static_world (\<lambda>p. if p = ''/d/a.txt'' then loose_time_line @ nl else [])
       [(''/d/a.txt'', 10)] (\<lambda>cmd. None)"

definition world_short_junk :: world where
  \<comment> \<open>\<open>a.txt\<close> holds a record cut short, two lines without the marker, then a whole record;
      \<open>b.txt\<close> is newer and empty\<close>
  "world_short_junk =
     static_world
       (\<lambda>p. if p = ''/d/a.txt''
            then short_line @ nl @ ''junk1'' @ nl @ ''junk2'' @ nl @ good_line @ nl else [])
       [(''/d/a.txt'', 10), (''/d/b.txt'', 20)] (\<lambda>cmd. None)"






section \<open>The record format and the epoch, in the words of the specification\<close>

text \<open>
  These definitions are not taken from the script. They write out what the specification
  says: the line-protocol string \<open>measurement,host=<host> <name1>=<v1>,...,<name15>=<v15>
  <timestamp_ns>\<close>, and the seconds from 1970-01-01T00:00:00Z to a time of the Gregorian
  calendar, counted through the days of the years and months that lie before it. The
  script is compared with them below.
\<close>

definition field_names :: "string list" where
  "field_names =
     [''T1'', ''T2'', ''T3'', ''T4'', ''Pwr1'', ''Pwr2'', ''Pwr3'', ''Pwr4'',
      ''LEDamp'', ''LEDwidth'', ''Threshold'', ''V1'', ''V2'', ''V3'', ''V4'']"

fun join_comma :: "string list \<Rightarrow> string" where
  "join_comma [] = []"
| "join_comma [x] = x"
| "join_comma (x # y # ys) = x @ '','' @ join_comma (y # ys)"

definition spec_serialize :: "string \<Rightarrow> string \<Rightarrow> (string \<times> string) list \<Rightarrow> int \<Rightarrow> string" where
  "spec_serialize measurement host named_values timestamp_ns =
     measurement @ '','' @ ''host='' @ host @ '' '' @
     join_comma (map (\<lambda>(name, v). name @ ''='' @ v) named_values) @ '' '' @ str_int timestamp_ns"

definition gregorian_leap :: "int \<Rightarrow> bool" where
  "gregorian_leap y = ((y mod 4 = 0 \<and> y mod 100 \<noteq> 0) \<or> y mod 400 = 0)"

definition year_length :: "int \<Rightarrow> int" where
  "year_length y = (if gregorian_leap y then 366 else 365)"

definition month_length :: "int \<Rightarrow> int \<Rightarrow> int" where
  "month_length y m =
     (if m = 2 then (if gregorian_leap y then 29 else 28)
      else if m = 4 \<or> m = 6 \<or> m = 9 \<or> m = 11 then 30 else 31)"

fun days_of_years :: "nat \<Rightarrow> int" where
  \<comment> \<open>the days of the years 1 to \<open>k\<close>\<close>
  "days_of_years 0 = 0"
| "days_of_years (Suc k) = days_of_years k + year_length (int (Suc k))"

fun days_of_months :: "int \<Rightarrow> nat \<Rightarrow> int" where
  \<comment> \<open>the days of the months 1 to \<open>k\<close> of the year \<open>y\<close>\<close>
  "days_of_months y 0 = 0"
| "days_of_months y (Suc k) = days_of_months y k + month_length y (int (Suc k))"

definition days_since_epoch :: "int \<Rightarrow> int \<Rightarrow> int \<Rightarrow> int" where
  \<comment> \<open>the days from 1970-01-01 to the day \<open>d\<close> of the month \<open>m\<close> of the year \<open>y\<close>\<close>
  "days_since_epoch y m d =
     days_of_years (nat (y - 1)) + days_of_months y (nat (m - 1)) + (d - 1) - days_of_years 1969"

definition epoch_seconds :: "int \<Rightarrow> int \<Rightarrow> int \<Rightarrow> int \<Rightarrow> int \<Rightarrow> int \<Rightarrow> int" where
  "epoch_seconds y m d hour minute second =
     days_since_epoch y m d * 86400 + hour * 3600 + minute * 60 + second"

section \<open>Properties of the Directory Scanner\<close>

lemma index_of_None: "index_of x xs = None \<longleftrightarrow> x \<notin> set xs"
  by (induction xs) (auto split: option.splits)

lemma index_of_distinct:
  "distinct xs \<Longrightarrow> i < length xs \<Longrightarrow> index_of (xs ! i) xs = Some i"
proof (induction xs arbitrary: i)
  case Nil
  then show ?case by simp
next
  case (Cons y ys)
  show ?case
  proof (cases i)
    case 0
    then show ?thesis by simp
  next
    case (Suc j)
    with Cons.prems have j: "j < length ys" and d: "distinct ys" and ny: "y \<notin> set ys"
      by auto
    from j ny have "ys ! j \<noteq> y" by (metis nth_mem)
    with Cons.IH [OF d j] Suc show ?thesis by simp
  qed
qed

lemma list_txt_files_set:
  "set (list_txt_files entries) = {p \<in> fst ` set entries. is_txt p}"
  by (auto simp: list_txt_files_def)

lemma list_txt_files_distinct:
  "distinct (map fst entries) \<Longrightarrow> distinct (list_txt_files entries)"
  by (simp add: list_txt_files_def distinct_map inj_on_def)

lemma list_txt_files_sorted:
  assumes "distinct (map fst entries)"
  shows "sorted (map (the \<circ> map_of entries) (list_txt_files entries))"
proof -
  let ?ys = "sort_key snd (filter (\<lambda>e. is_txt (fst e)) entries)"
  have eq: "map (the \<circ> map_of entries) (map fst ?ys) = map snd ?ys"
    using assms by auto
  have "sorted (map snd ?ys)"
    by (rule sorted_sort_key)
  then show ?thesis
    unfolding list_txt_files_def eq .
qed

text \<open>
  Claim C7. The listing \<open>list_txt_files\<close> builds from a directory (whose entries have
  distinct paths) is ordered ascending by modification time, and on it
  \<open>find_next_file\<close> returns the immediate successor of a listed file, \<open>None\<close> for the
  last file of the listing, and the last file of the listing for a file that is absent
  from it (\<open>None\<close> when the listing is empty).
\<close>

theorem find_next_file_successor:
  assumes "distinct (map fst entries)" and "files = list_txt_files entries"
  shows "sorted (map (the \<circ> map_of entries) files) \<and>
         (\<forall>i. Suc i < length files \<longrightarrow> find_next_file (files ! i) files = Some (files ! Suc i)) \<and>
         (files \<noteq> [] \<longrightarrow> find_next_file (last files) files = None) \<and>
         (cur \<notin> set files \<longrightarrow> files \<noteq> [] \<longrightarrow> find_next_file cur files = Some (last files)) \<and>
         (files = [] \<longrightarrow> find_next_file cur files = None)"
proof -
  have d: "distinct files"
    using assms by (simp add: list_txt_files_distinct)
  have succ: "find_next_file (files ! i) files = Some (files ! Suc i)" if "Suc i < length files" for i
    using that index_of_distinct [OF d, of i] by (simp add: find_next_file_def)
  have lst: "find_next_file (last files) files = None" if "files \<noteq> []"
  proof -
    from that have "last files = files ! (length files - 1)" by (simp add: last_conv_nth)
    moreover from that have "length files - 1 < length files" by simp
    ultimately show ?thesis
      using index_of_distinct [OF d, of "length files - 1"] by (simp add: find_next_file_def)
  qed
  have absent: "find_next_file cur files = Some (last files)"
    if "cur \<notin> set files" "files \<noteq> []"
    using that index_of_None [of cur files] by (simp add: find_next_file_def)
  have empty: "find_next_file cur files = None" if "files = []"
    using that by (simp add: find_next_file_def)
  from assms have "sorted (map (the \<circ> map_of entries) files)"
    by (simp add: list_txt_files_sorted)
  with succ lst absent empty show ?thesis by blast
qed

theorem find_next_file_successor_witness:
  "list_txt_files [(''/d/b.txt'', 20), (''/d/n.log'', 30), (''/d/a.txt'', 10)] = [''/d/a.txt'', ''/d/b.txt''] \<and>
   find_next_file ''/d/a.txt'' [''/d/a.txt'', ''/d/b.txt''] = Some ''/d/b.txt'' \<and>
   find_next_file ''/d/b.txt'' [''/d/a.txt'', ''/d/b.txt''] = None \<and>
   find_next_file ''/d/c.txt'' [''/d/a.txt'', ''/d/b.txt''] = Some ''/d/b.txt''"
proof -
  let ?es = "[(''/d/b.txt'', 20::int), (''/d/n.log'', 30), (''/d/a.txt'', 10)]"
  have l: "list_txt_files ?es = [''/d/a.txt'', ''/d/b.txt'']"
    by (simp add: list_txt_files_def is_txt_def)
  have dst: "distinct (map fst ?es)" by simp
  from find_next_file_successor [OF dst l [symmetric], of "''/d/c.txt''"]
  have "(\<forall>i. Suc i < 2 \<longrightarrow> find_next_file ([''/d/a.txt'', ''/d/b.txt''] ! i) [''/d/a.txt'', ''/d/b.txt''] = Some ([''/d/a.txt'', ''/d/b.txt''] ! Suc i))"
    and "find_next_file ''/d/b.txt'' [''/d/a.txt'', ''/d/b.txt''] = None"
    and "find_next_file ''/d/c.txt'' [''/d/a.txt'', ''/d/b.txt''] = Some ''/d/b.txt''"
    by simp_all
  then show ?thesis using l by force
qed

section \<open>Lines without the marker\<close>

text \<open>
  In the inner loop \<open>continue\<close> stands inside the marker branch only. After a line that
  does not start with the marker, control therefore falls through to the statements
  commented \<open># EOF\<close> and \<open># Still no data\<close>: the script sleeps, reads once more, and if
  that line has no marker either it looks for a newer file.
\<close>

lemma world_two_junk_simps:
  "file_text world_two_junk t ''/d/b.txt'' = []"
  "interrupt world_two_junk t = False"
  "dir_entries world_two_junk t = [(''/d/a.txt'', 10), (''/d/b.txt'', 20)]"
  by (simp_all add: world_two_junk_def static_world_def)

lemma scan_two_junk:
  "scan_directory world_two_junk t = Inr [''/d/a.txt'', ''/d/b.txt'']"
  by (simp add: scan_directory_def world_two_junk_def static_world_def is_txt_def
      list_txt_files_def List.map_filter_simps)

lemma find_next_b:
  "find_next_file ''/d/b.txt'' [''/d/a.txt'', ''/d/b.txt''] = None"
  by code_simp

lemma inner_body_at_b:
  assumes "current st = ''/d/b.txt''"
  shows "\<exists>st'. inner_body world_two_junk s 60 st = (Continue, st') \<and> current st' = ''/d/b.txt'' \<and>
           sends st' = sends st \<and> take (length (events st)) (events st') = events st"
  using assms
  by (simp add: inner_body_def read_attempt_def readline_def sleep_def world_two_junk_simps
      scan_two_junk find_next_b sends_def Let_def)

lemma inner_loop_at_b:
  "current st = ''/d/b.txt'' \<Longrightarrow>
   \<exists>st'. inner_loop n world_two_junk s 60 st = Running st' \<and> current st' = ''/d/b.txt'' \<and>
           sends st' = sends st \<and> take (length (events st)) (events st') = events st"
proof (induction n arbitrary: st)
  case 0
  then show ?case by simp
next
  case (Suc n)
  from inner_body_at_b [OF Suc.prems, of s] obtain st1 where
    b: "inner_body world_two_junk s 60 st = (Continue, st1)" and c: "current st1 = ''/d/b.txt''"
    and s1: "sends st1 = sends st" and e1: "take (length (events st)) (events st1) = events st"
    by blast
  from Suc.IH [OF c] obtain st2 where
    l: "inner_loop n world_two_junk s 60 st1 = Running st2" and c2: "current st2 = ''/d/b.txt''"
    and s2: "sends st2 = sends st1" and e2: "take (length (events st1)) (events st2) = events st1"
    by blast
  have "length (events st) \<le> length (events st1)"
    using e1 by (metis length_take min.cobounded2 min.commute)
  then have "take (length (events st)) (events st2) = events st"
    using e1 e2 by (metis min.absorb1 take_take)
  with b l c2 s1 s2 show ?case by simp
qed

lemma run_to_b:
  "process_files (Suc (Suc (Suc n))) world_two_junk ''/d/a.txt'' (Sender INFLUXDB_URL) 60 =
     inner_loop n world_two_junk (Sender INFLUXDB_URL) 60
       \<lparr>current = ''/d/b.txt'', handle_pos = 0, line_no = 0, clock = 1,
        events =
          [Opened ''/d/a.txt'',
           Logged (''2025-06-09 22:00:00 GMT [OPEN] Processing file: /d/a.txt'' @ nl),
           Read (''junk1'' @ nl), Sleep 60, Read (''junk2'' @ nl),
           Opened ''/d/b.txt'',
           Logged (''2025-06-09 22:00:00 GMT [OPEN] Processing file: /d/b.txt'' @ nl)]\<rparr>"
  by (simp add: process_files_def initial_state_def world_two_junk_def static_world_def
      inner_body_def read_attempt_def readline_def sleep_def log_def Let_def nl_def good_line_def
      strip_def isspace_def startswith_def MEASUREMENT_def find_next_file_def list_txt_files_def
      is_txt_def scan_directory_def List.map_filter_simps)

text \<open>
  Claim C1 (the code departs from it). \<open>a.txt\<close> holds two lines without the marker and then
  a record; \<open>b.txt\<close> is newer. However long the script runs, it reads the two lines of
  \<open>a.txt\<close> (one before and one after the sleep), finds both without the marker, takes that
  for \<open>Still no data\<close>, opens \<open>b.txt\<close> and never sends the record of \<open>a.txt\<close>.
\<close>

theorem rotation_skips_unread_candidate:
  "\<forall>n. case process_files (n + 3) world_two_junk ''/d/a.txt'' (Sender INFLUXDB_URL) 60 of
         Running st \<Rightarrow>
           current st = ''/d/b.txt'' \<and> sends st = [] \<and>
           take 7 (events st) =
             [Opened ''/d/a.txt'',
              Logged (''2025-06-09 22:00:00 GMT [OPEN] Processing file: /d/a.txt'' @ nl),
              Read (''junk1'' @ nl), Sleep 60, Read (''junk2'' @ nl),
              Opened ''/d/b.txt'',
              Logged (''2025-06-09 22:00:00 GMT [OPEN] Processing file: /d/b.txt'' @ nl)]
       | Stopped e st \<Rightarrow> False"
proof
  fix n
  let ?ev = "[Opened ''/d/a.txt'',
           Logged (''2025-06-09 22:00:00 GMT [OPEN] Processing file: /d/a.txt'' @ nl),
           Read (''junk1'' @ nl), Sleep 60, Read (''junk2'' @ nl),
           Opened ''/d/b.txt'',
           Logged (''2025-06-09 22:00:00 GMT [OPEN] Processing file: /d/b.txt'' @ nl)]"
  let ?st3 = "\<lparr>current = ''/d/b.txt'', handle_pos = 0, line_no = 0, clock = 1, events = ?ev\<rparr>"
  have c: "current ?st3 = ''/d/b.txt''" by simp
  from inner_loop_at_b [OF c, of n "Sender INFLUXDB_URL"] obtain st' where
    l: "inner_loop n world_two_junk (Sender INFLUXDB_URL) 60 ?st3 = Running st'"
    and c': "current st' = ''/d/b.txt''" and s': "sends st' = sends ?st3"
    and e': "take (length (events ?st3)) (events st') = events ?st3"
    by blast
  have n3: "n + 3 = Suc (Suc (Suc n))" by simp
  have pr: "process_files (n + 3) world_two_junk ''/d/a.txt'' (Sender INFLUXDB_URL) 60 = Running st'"
    by (simp only: n3 run_to_b l)
  have s0: "sends st' = []"
    unfolding s' by (simp add: sends_def)
  have "length (events ?st3) = 7" "events ?st3 = ?ev" by simp_all
  with e' have e0: "take 7 (events st') = ?ev" by (simp only:)
  show "case process_files (n + 3) world_two_junk ''/d/a.txt'' (Sender INFLUXDB_URL) 60 of
         Running st \<Rightarrow> current st = ''/d/b.txt'' \<and> sends st = [] \<and> take 7 (events st) = ?ev
       | Stopped e st \<Rightarrow> False"
    unfolding pr using c' s0 e0 by (simp only: run.case simp_thms)
qed

text \<open>
  Claim C2 (the code departs from it). The file holds a comment line and then a record.
  After reading the comment line the script does not read on at once: it calls
  \<open>time.sleep(60)\<close> before the next \<open>readline\<close>, so the events that follow the opening of
  the file are the read of the comment line, the sleep, and only then the read of the
  record.
\<close>

theorem non_marker_line_sleeps:
  "(case process_files 2 world_header ''/d/a.txt'' (Sender INFLUXDB_URL) 60 of
      Running st \<Rightarrow>
        take 3 (drop 2 (events st)) = [Read (''# header'' @ nl), Sleep 60, Read (good_line @ nl)]
    | Stopped e st \<Rightarrow> False)"
  by code_simp

section \<open>Lines with the wrong number of fields\<close>

lemma process_line_skip:
  "length (split_comma line) \<noteq> 18 \<Longrightarrow>
   process_line w line sender line_number st =
     (None, st\<lparr>events := events st @
        [Logged (utcnow w (clock st) @ '' [SKIP] Unexpected 'expected_len' in line '' @
                 str_int line_number @ '' : '' @ line @ nl)]\<rparr>)"
  by (simp add: process_line_def log_def nl_def)

lemma inner_body_skip:
  assumes "raw = readline_text (drop (handle_pos st) (file_text w (clock st) (current st)))"
    and "raw \<noteq> []" and "startswith (strip raw) MEASUREMENT"
    and "length (split_comma (strip raw)) \<noteq> 18"
  shows "inner_body w sender wait_time st =
           (Continue,
            st\<lparr>handle_pos := handle_pos st + length raw, line_no := line_no st + 1,
               events := events st @
                 [Read raw,
                  Logged (utcnow w (clock st) @ '' [SKIP] Unexpected 'expected_len' in line '' @
                          str_int (line_no st + 1) @ '' : '' @ strip raw @ nl)]\<rparr>)"
  using assms
  by (simp add: inner_body_def read_attempt_def readline_def process_line_skip Let_def)

lemma world_short_run:
  "process_files 3 world_short ''/d/a.txt'' (Sender INFLUXDB_URL) 60 =
     Running
       \<lparr>current = ''/d/a.txt'', handle_pos = length (short_line @ nl @ good_line @ nl),
        line_no = 2, clock = 0,
        events =
          [Opened ''/d/a.txt'',
           Logged (''2025-06-09 22:00:00 GMT [OPEN] Processing file: /d/a.txt'' @ nl),
           Read (short_line @ nl),
           Logged (''2025-06-09 22:00:00 GMT [SKIP] Unexpected 'expected_len' in line 1 : '' @ short_line @ nl),
           Read (good_line @ nl),
           Printed (''[PARSED] Line 2 : host=host1, T1=1,T2=2,T3=3,T4=4,Pwr1=5,Pwr2=6,Pwr3=7,Pwr4=8,LEDamp=9,LEDwidth=10,Threshold=11,V1=12,V2=13,V3=14,V4=15, time=1749506292000000000''),
           Ran [''curl'', ''-f'', ''-sS'', ''-XPOST'', INFLUXDB_URL, ''--data-binary'', good_protocol] 10,
           Logged (''2025-06-09 22:00:00 GMT [PARSED] Line 2 : '' @ good_line @ nl)]\<rparr>"
  by code_simp

lemma idle_pass:
  assumes "\<And>t. file_text w t p = []" and "\<And>t. \<not> interrupt w t"
    and "\<And>t. scan_directory w t = Inr files" and "find_next_file p files = None"
    and "0 \<le> wait_time" and "wait_time \<le> 9223372036"
    and "current st = p"
  shows "\<exists>st'. inner_body w sender wait_time st = (Continue, st') \<and> current st' = p \<and>
           sends st' = sends st \<and> take (length (events st)) (events st') = events st"
  using assms
  by (simp add: inner_body_def read_attempt_def readline_def sleep_def sends_def Let_def)

lemma idle_forever:
  assumes "\<And>t. file_text w t p = []" and "\<And>t. \<not> interrupt w t"
    and "\<And>t. scan_directory w t = Inr files" and "find_next_file p files = None"
    and "0 \<le> wait_time" and "wait_time \<le> 9223372036"
  shows "current st = p \<Longrightarrow>
         \<exists>st'. inner_loop n w sender wait_time st = Running st' \<and> current st' = p \<and>
           sends st' = sends st \<and> take (length (events st)) (events st') = events st"
proof (induction n arbitrary: st)
  case 0
  then show ?case by simp
next
  case (Suc n)
  from idle_pass [OF assms Suc.prems, of sender] obtain st1 where
    b: "inner_body w sender wait_time st = (Continue, st1)" and c: "current st1 = p"
    and s1: "sends st1 = sends st" and e1: "take (length (events st)) (events st1) = events st"
    by blast
  from Suc.IH [OF c] obtain st2 where
    l: "inner_loop n w sender wait_time st1 = Running st2" and c2: "current st2 = p"
    and s2: "sends st2 = sends st1" and e2: "take (length (events st1)) (events st2) = events st1"
    by blast
  have "length (events st) \<le> length (events st1)"
    using e1 by (metis length_take min.cobounded2 min.commute)
  then have "take (length (events st)) (events st2) = events st"
    using e1 e2 by (metis min.absorb1 take_take)
  with b l c2 s1 s2 show ?case by simp
qed

lemma world_short_junk_simps:
  "file_text world_short_junk t ''/d/b.txt'' = []"
  "\<not> interrupt world_short_junk t"
  "scan_directory world_short_junk t = Inr [''/d/a.txt'', ''/d/b.txt'']"
  by (simp_all add: world_short_junk_def static_world_def scan_directory_def is_txt_def
      list_txt_files_def List.map_filter_simps)

lemma short_junk_to_b:
  "process_files (Suc (Suc (Suc (Suc n)))) world_short_junk ''/d/a.txt'' (Sender INFLUXDB_URL) 60 =
     inner_loop n world_short_junk (Sender INFLUXDB_URL) 60
       \<lparr>current = ''/d/b.txt'', handle_pos = 0, line_no = 0, clock = 1,
        events =
          [Opened ''/d/a.txt'',
           Logged (''2025-06-09 22:00:00 GMT [OPEN] Processing file: /d/a.txt'' @ nl),
           Read (short_line @ nl),
           Logged (''2025-06-09 22:00:00 GMT [SKIP] Unexpected 'expected_len' in line 1 : '' @
                   short_line @ nl),
           Read (''junk1'' @ nl), Sleep 60, Read (''junk2'' @ nl),
           Opened ''/d/b.txt'',
           Logged (''2025-06-09 22:00:00 GMT [OPEN] Processing file: /d/b.txt'' @ nl)]\<rparr>"
proof -
  let ?S = "Sender INFLUXDB_URL"
  let ?st1 = "\<lparr>current = ''/d/a.txt'', handle_pos = 0, line_no = 0, clock = 0,
        events =
          [Opened ''/d/a.txt'',
           Logged (''2025-06-09 22:00:00 GMT [OPEN] Processing file: /d/a.txt'' @ nl)]\<rparr>"
  let ?st2 = "\<lparr>current = ''/d/a.txt'', handle_pos = 28, line_no = 1, clock = 0,
        events =
          [Opened ''/d/a.txt'',
           Logged (''2025-06-09 22:00:00 GMT [OPEN] Processing file: /d/a.txt'' @ nl),
           Read (short_line @ nl),
           Logged (''2025-06-09 22:00:00 GMT [SKIP] Unexpected 'expected_len' in line 1 : '' @
                   short_line @ nl)]\<rparr>"
  let ?st3 = "\<lparr>current = ''/d/b.txt'', handle_pos = 40, line_no = 3, clock = 1,
        events =
          [Opened ''/d/a.txt'',
           Logged (''2025-06-09 22:00:00 GMT [OPEN] Processing file: /d/a.txt'' @ nl),
           Read (short_line @ nl),
           Logged (''2025-06-09 22:00:00 GMT [SKIP] Unexpected 'expected_len' in line 1 : '' @
                   short_line @ nl),
           Read (''junk1'' @ nl), Sleep 60, Read (''junk2'' @ nl)]\<rparr>"
  have o: "open_error world_short_junk t p = (if p = ''/d/a.txt'' \<or> p = ''/d/b.txt'' then None else Some FileNotFoundError)" for t p
    by (simp add: world_short_junk_def static_world_def)
  have u: "utcnow world_short_junk t = ''2025-06-09 22:00:00 GMT''" for t
    by (simp add: world_short_junk_def static_world_def)
  have b1: "inner_body world_short_junk ?S 60 ?st1 = (Continue, ?st2)"
    by code_simp
  have b2: "inner_body world_short_junk ?S 60 ?st2 = (Break, ?st3)"
    by code_simp
  have s0: "process_files (Suc (Suc (Suc (Suc n)))) world_short_junk ''/d/a.txt'' ?S 60 =
            inner_loop (Suc (Suc (Suc n))) world_short_junk ?S 60 ?st1"
    by (simp add: process_files_def initial_state_def o u log_def nl_def)
  have s1: "inner_loop (Suc (Suc (Suc n))) world_short_junk ?S 60 ?st1 =
            inner_loop (Suc (Suc n)) world_short_junk ?S 60 ?st2"
    by (simp only: inner_loop.simps b1 prod.case flow.case)
  have s2: "inner_loop (Suc (Suc n)) world_short_junk ?S 60 ?st2 =
            outer_loop (Suc n) world_short_junk ?S 60 ?st3"
    by (simp only: inner_loop.simps b2 prod.case flow.case)
  have s3: "outer_loop (Suc n) world_short_junk ?S 60 ?st3 =
     inner_loop n world_short_junk ?S 60
       \<lparr>current = ''/d/b.txt'', handle_pos = 0, line_no = 0, clock = 1,
        events =
          [Opened ''/d/a.txt'',
           Logged (''2025-06-09 22:00:00 GMT [OPEN] Processing file: /d/a.txt'' @ nl),
           Read (short_line @ nl),
           Logged (''2025-06-09 22:00:00 GMT [SKIP] Unexpected 'expected_len' in line 1 : '' @
                   short_line @ nl),
           Read (''junk1'' @ nl), Sleep 60, Read (''junk2'' @ nl),
           Opened ''/d/b.txt'',
           Logged (''2025-06-09 22:00:00 GMT [OPEN] Processing file: /d/b.txt'' @ nl)]\<rparr>"
    by (simp add: o u log_def nl_def)
  show ?thesis
    by (simp only: s0 s1 s2 s3)
qed

text \<open>
  Claim C5 (the code departs from it). \<open>a.txt\<close> holds a record cut short, two lines without
  the marker and then a whole record; \<open>b.txt\<close> is newer. The short record is skipped as the
  claim says: one \<open>[SKIP]\<close> entry in the log, no exception, and the loop reads on. But the
  whole record further down the same file is never processed: the two lines without the
  marker are taken for the end of the file, and the script opens \<open>b.txt\<close>. However long it
  runs, it sends nothing.
\<close>

theorem skipped_line_then_record_never_sent:
  "\<forall>n. case process_files (n + 4) world_short_junk ''/d/a.txt'' (Sender INFLUXDB_URL) 60 of
         Running st \<Rightarrow>
           current st = ''/d/b.txt'' \<and> sends st = [] \<and>
           take 9 (events st) =
             [Opened ''/d/a.txt'',
              Logged (''2025-06-09 22:00:00 GMT [OPEN] Processing file: /d/a.txt'' @ nl),
              Read (short_line @ nl),
              Logged (''2025-06-09 22:00:00 GMT [SKIP] Unexpected 'expected_len' in line 1 : '' @
                      short_line @ nl),
              Read (''junk1'' @ nl), Sleep 60, Read (''junk2'' @ nl),
              Opened ''/d/b.txt'',
              Logged (''2025-06-09 22:00:00 GMT [OPEN] Processing file: /d/b.txt'' @ nl)]
       | Stopped e st \<Rightarrow> False"
proof
  fix n
  let ?S = "Sender INFLUXDB_URL"
  let ?ev = "[Opened ''/d/a.txt'',
              Logged (''2025-06-09 22:00:00 GMT [OPEN] Processing file: /d/a.txt'' @ nl),
              Read (short_line @ nl),
              Logged (''2025-06-09 22:00:00 GMT [SKIP] Unexpected 'expected_len' in line 1 : '' @
                      short_line @ nl),
              Read (''junk1'' @ nl), Sleep 60, Read (''junk2'' @ nl),
              Opened ''/d/b.txt'',
              Logged (''2025-06-09 22:00:00 GMT [OPEN] Processing file: /d/b.txt'' @ nl)]"
  let ?st4 = "\<lparr>current = ''/d/b.txt'', handle_pos = 0, line_no = 0, clock = 1, events = ?ev\<rparr>"
  have c: "current ?st4 = ''/d/b.txt''" by simp
  have f: "find_next_file ''/d/b.txt'' [''/d/a.txt'', ''/d/b.txt''] = None"
    by code_simp
  from idle_forever [of world_short_junk "''/d/b.txt''" "[''/d/a.txt'', ''/d/b.txt'']" 60 ?st4 n ?S,
      OF world_short_junk_simps f _ _ c]
  obtain st' where
    l: "inner_loop n world_short_junk ?S 60 ?st4 = Running st'"
    and c': "current st' = ''/d/b.txt''" and s': "sends st' = sends ?st4"
    and e': "take (length (events ?st4)) (events st') = events ?st4"
    by auto
  have n4: "n + 4 = Suc (Suc (Suc (Suc n)))" by simp
  have pr: "process_files (n + 4) world_short_junk ''/d/a.txt'' ?S 60 = Running st'"
    by (simp only: n4 short_junk_to_b l)
  have s0: "sends st' = []"
    unfolding s' by (simp add: sends_def)
  have "length (events ?st4) = 9" "events ?st4 = ?ev" by simp_all
  with e' have e0: "take 9 (events st') = ?ev" by (simp only:)
  show "case process_files (n + 4) world_short_junk ''/d/a.txt'' ?S 60 of
         Running st \<Rightarrow> current st = ''/d/b.txt'' \<and> sends st = [] \<and> take 9 (events st) = ?ev
       | Stopped e st \<Rightarrow> False"
    unfolding pr using c' s0 e0 by (simp only: run.case simp_thms)
qed

section \<open>The ways through \<open>process_line\<close> and \<open>send\<close>\<close>

lemma process_line_Inl:
  "length (split_comma line) = 18 \<Longrightarrow> iso_z_to_ns (last (split_comma line)) = Inl e \<Longrightarrow>
   process_line w line sender line_number st =
     (if is_Exception e then (Some e, log w (parse_failed_text w line line_number e) st)
      else (Some e, st))"
  by (simp add: process_line_def parse_failed_text_def)

lemma process_line_Inr:
  assumes l: "length (split_comma line) = 18"
    and t: "iso_z_to_ns (last (split_comma line)) = Inr ns"
  shows "process_line w line sender line_number st =
     (case send w sender (line_protocol_of (split_comma line) ns) 10
             (py_print (parsed_text (split_comma line) line_number ns) st) of
        (Some e, st2) \<Rightarrow>
          if is_Exception e then (Some e, log w (parse_failed_text w line line_number e) st2)
          else (Some e, st2)
      | (None, st2) \<Rightarrow> (None, log w (''[PARSED] Line '' @ str_int line_number @ '' : '' @ line) st2))"
proof -
  have e: "(length (split_comma line) \<noteq> 2 + 15 + 1) = False"
    using l by simp
  show ?thesis
    unfolding process_line_def parse_failed_text_def line_protocol_of_def parsed_text_def
      fields_of_def Let_def
    by (simp only: e t if_False sum.case append_assoc)
qed

lemma send_unfold:
  "send w self line_protocol timeout st =
     (case run_curl w (clock st) (curl_cmd self line_protocol) timeout of
        None \<Rightarrow> (None, st\<lparr>events := events st @ [Ran (curl_cmd self line_protocol) timeout]\<rparr>)
      | Some e \<Rightarrow>
          if is_Exception e
          then (Some e,
                st\<lparr>events := events st @
                  [Ran (curl_cmd self line_protocol) timeout,
                   Logged (utcnow w (clock st) @ '' '' @ curl_error_text w timeout e @ nl),
                   Printed (curl_error_text w timeout e)]\<rparr>)
          else (Some e, st\<lparr>events := events st @ [Ran (curl_cmd self line_protocol) timeout]\<rparr>))"
  by (simp add: send_def curl_cmd_def log_def py_print_def nl_def Let_def split: option.splits)

section \<open>When the script sends\<close>

lemma send_Ran:
  "filter is_Ran (events (snd (send w s lp t st))) = filter is_Ran (events st) @ [Ran (curl_cmd s lp) t]"
  by (simp add: send_unfold split: option.splits)

lemma send_Read:
  "filter is_sendable_Read (events (snd (send w s lp t st))) = filter is_sendable_Read (events st)"
  by (simp add: send_unfold split: option.splits)

lemma process_line_Read:
  "filter is_sendable_Read (events (snd (process_line w line s k st))) =
     filter is_sendable_Read (events st)"
proof (cases "length (split_comma line) = 18")
  case False
  then show ?thesis by (simp add: process_line_skip)
next
  case True
  show ?thesis
  proof (cases "iso_z_to_ns (last (split_comma line))")
    case (Inl e)
    with True show ?thesis by (simp add: process_line_Inl log_def)
  next
    case (Inr ns)
    let ?st1 = "py_print (parsed_text (split_comma line) k ns) st"
    have "filter is_sendable_Read (events ?st1) = filter is_sendable_Read (events st)"
      by (simp add: py_print_def)
    with send_Read [of w s "line_protocol_of (split_comma line) ns" 10 ?st1]
    show ?thesis
      by (cases "send w s (line_protocol_of (split_comma line) ns) 10 ?st1")
        (auto simp: process_line_Inr [OF True Inr] log_def split: option.splits)
  qed
qed

lemma process_line_Ran:
  "filter is_Ran (events (snd (process_line w line s k st))) =
     filter is_Ran (events st) @
     (if length (split_comma line) = 18
      then (case iso_z_to_ns (last (split_comma line)) of
              Inl e \<Rightarrow> []
            | Inr ns \<Rightarrow> [Ran (curl_cmd s (line_protocol_of (split_comma line) ns)) 10])
      else [])"
proof (cases "length (split_comma line) = 18")
  case False
  then show ?thesis by (simp add: process_line_skip)
next
  case True
  show ?thesis
  proof (cases "iso_z_to_ns (last (split_comma line))")
    case (Inl e)
    with True show ?thesis by (simp add: process_line_Inl log_def)
  next
    case (Inr ns)
    let ?st1 = "py_print (parsed_text (split_comma line) k ns) st"
    have "filter is_Ran (events ?st1) = filter is_Ran (events st)"
      by (simp add: py_print_def)
    with send_Ran [of w s "line_protocol_of (split_comma line) ns" 10 ?st1] True Inr
    show ?thesis
      by (cases "send w s (line_protocol_of (split_comma line) ns) 10 ?st1")
        (auto simp: process_line_Inr [OF True Inr] log_def split: option.splits)
  qed
qed

lemma read_attempt_Ran:
  assumes "readline w st = (raw, st1)" and "read_attempt w sender st = (a, st')"
  shows "sends st' =
           sends st @
           (if sendable raw
            then (case iso_z_to_ns (last (split_comma (strip raw))) of
                    Inl e \<Rightarrow> []
                  | Inr ns \<Rightarrow> [Ran (curl_cmd sender (line_protocol_of (split_comma (strip raw)) ns)) 10])
            else [])"
proof -
  have st1: "st1 = st\<lparr>handle_pos := handle_pos st + length raw, events := events st @ [Read raw]\<rparr>"
    and raw: "raw = readline_text (drop (handle_pos st) (file_text w (clock st) (current st)))"
    using assms(1) by (auto simp: readline_def Let_def)
  show ?thesis
  proof (cases "raw \<noteq> [] \<and> startswith (strip raw) MEASUREMENT")
    case False
    then have "\<not> sendable raw"
      by (auto simp: sendable_def strip_def startswith_def MEASUREMENT_def)
    moreover from False assms(2) have "events st' = events st @ [Read raw]"
      using assms(1) by (auto simp: read_attempt_def st1 Let_def split: if_splits)
    ultimately show ?thesis
      by (simp add: sends_def)
  next
    case True
    let ?st2 = "st1\<lparr>line_no := line_no st1 + 1\<rparr>"
    from True assms have "st' = snd (process_line w (strip raw) sender (line_no ?st2) ?st2)"
      by (auto simp: read_attempt_def Let_def split: prod.splits option.splits)
    then have "sends st' = filter is_Ran (events (snd (process_line w (strip raw) sender (line_no ?st2) ?st2)))"
      by (simp add: sends_def)
    also have "\<dots> = filter is_Ran (events ?st2) @
       (if length (split_comma (strip raw)) = 18
        then (case iso_z_to_ns (last (split_comma (strip raw))) of
                Inl e \<Rightarrow> []
              | Inr ns \<Rightarrow> [Ran (curl_cmd sender (line_protocol_of (split_comma (strip raw)) ns)) 10])
        else [])"
      by (rule process_line_Ran)
    also have "filter is_Ran (events ?st2) = sends st"
      by (simp add: st1 sends_def)
    finally show ?thesis
      using True by (auto simp: sendable_def Let_def split: sum.splits)
  qed
qed

lemma read_attempt_Read:
  assumes "readline w st = (raw, st1)" and "read_attempt w sender st = (a, st')"
  shows "filter is_sendable_Read (events st') =
           filter is_sendable_Read (events st) @ (if sendable raw then [Read raw] else [])"
proof -
  have st1: "st1 = st\<lparr>handle_pos := handle_pos st + length raw, events := events st @ [Read raw]\<rparr>"
    using assms(1) by (auto simp: readline_def Let_def)
  show ?thesis
  proof (cases "raw \<noteq> [] \<and> startswith (strip raw) MEASUREMENT")
    case False
    with assms have "events st' = events st @ [Read raw]"
      by (auto simp: read_attempt_def st1 Let_def split: if_splits)
    then show ?thesis by simp
  next
    case True
    let ?st2 = "st1\<lparr>line_no := line_no st1 + 1\<rparr>"
    from True assms have "st' = snd (process_line w (strip raw) sender (line_no ?st2) ?st2)"
      by (auto simp: read_attempt_def Let_def split: prod.splits option.splits)
    then show ?thesis
      by (simp add: process_line_Read st1)
  qed
qed

lemma sendable_Inr:
  "sendable raw \<Longrightarrow> \<exists>ns. iso_z_to_ns (last (split_comma (strip raw))) = Inr ns"
  by (auto simp: sendable_def Let_def split: sum.splits)

lemma read_attempt_balanced:
  assumes "read_attempt w sender st = (a, st')"
    and "length (sends st) = length (filter is_sendable_Read (events st))"
  shows "length (sends st') = length (filter is_sendable_Read (events st'))"
proof -
  obtain raw st1 where r: "readline w st = (raw, st1)"
    by (cases "readline w st")
  from read_attempt_Ran [OF r assms(1)] read_attempt_Read [OF r assms(1)] assms(2)
  show ?thesis
    by (auto dest: sendable_Inr)
qed

lemma sleep_balanced:
  assumes "sleep w secs st = (r, st')"
    and "length (sends st) = length (filter is_sendable_Read (events st))"
  shows "length (sends st') = length (filter is_sendable_Read (events st'))"
  using assms by (auto simp: sleep_def sends_def Let_def split: if_splits)

lemma inner_body_balanced:
  assumes "inner_body w sender wait_time st = (f, st')"
    and "length (sends st) = length (filter is_sendable_Read (events st))"
  shows "length (sends st') = length (filter is_sendable_Read (events st'))"
proof -
  obtain a1 st1 where a1: "read_attempt w sender st = (a1, st1)"
    by (cases "read_attempt w sender st")
  note b1 = read_attempt_balanced [OF a1 assms(2)]
  show ?thesis
  proof (cases a1)
    case Processed
    with assms(1) a1 b1 show ?thesis by (simp add: inner_body_def)
  next
    case (Failed e)
    with assms(1) a1 b1 show ?thesis by (simp add: inner_body_def)
  next
    case Not_Processed
    obtain r st2 where s: "sleep w wait_time st1 = (r, st2)"
      by (cases "sleep w wait_time st1")
    note b2 = sleep_balanced [OF s b1]
    show ?thesis
    proof (cases r)
      case (Some e)
      with assms(1) a1 Not_Processed s b2 show ?thesis
        by (simp add: inner_body_def)
    next
      case None
      obtain a3 st3 where a3: "read_attempt w sender st2 = (a3, st3)"
        by (cases "read_attempt w sender st2")
      note b3 = read_attempt_balanced [OF a3 b2]
      from assms(1) a1 Not_Processed s None a3
      have "events st' = events st3"
        by (cases a3) (auto simp: inner_body_def split: option.splits sum.splits)
      with b3 show ?thesis by (simp add: sends_def)
    qed
  qed
qed

lemma loops_balanced:
  "(length (sends st) = length (filter is_sendable_Read (events st)) \<longrightarrow>
      length (sends (state_of (outer_loop n w sender wait_time st))) =
        length (filter is_sendable_Read (events (state_of (outer_loop n w sender wait_time st)))))"
  "(length (sends st) = length (filter is_sendable_Read (events st)) \<longrightarrow>
      length (sends (state_of (inner_loop n w sender wait_time st))) =
        length (filter is_sendable_Read (events (state_of (inner_loop n w sender wait_time st)))))"
proof (induction n w sender wait_time st and n w sender wait_time st rule: outer_loop_inner_loop.induct)
  case (1 w sender wait_time st)
  show ?case by simp
next
  case (2 n w sender wait_time st)
  show ?case
  proof (cases "open_error w (clock st) (current st)")
    case (Some e)
    then show ?thesis by simp
  next
    case None
    with 2 show ?thesis
      by (simp add: log_def sends_def)
  qed
next
  case (3 w sender wait_time st)
  show ?case by simp
next
  case (4 n w sender wait_time st)
  obtain f st1 where b: "inner_body w sender wait_time st = (f, st1)"
    by (cases "inner_body w sender wait_time st")
  show ?case
  proof
    assume i: "length (sends st) = length (filter is_sendable_Read (events st))"
    note i1 = inner_body_balanced [OF b i]
    show "length (sends (state_of (inner_loop (Suc n) w sender wait_time st))) =
        length (filter is_sendable_Read (events (state_of (inner_loop (Suc n) w sender wait_time st))))"
    proof (cases f)
      case Continue
      with 4(1) [OF b [symmetric] Continue] b i1 show ?thesis by simp
    next
      case Break
      with 4(2) [OF b [symmetric] Break] b i1 show ?thesis by simp
    next
      case (Raise e)
      with b i1 show ?thesis by simp
    qed
  qed
qed

text \<open>
  Claim C9. Take one pass through the block \<open>line = f.readline(); if line: ...\<close>, in which
  \<open>readline\<close> returns \<open>raw\<close>. If \<open>raw\<close>, stripped, starts with the marker, splits into 18
  fields and its last field is converted by \<open>iso_z_to_ns\<close> (it is \<open>sendable\<close>), the pass
  runs \<open>curl\<close> exactly once, with timeout 10, on the line protocol of that line; in every
  other case it runs nothing. Nothing else in the script sends: in every run of
  \<open>process_files\<close>, however long, the number of commands run equals the number of sendable
  lines read.
\<close>

theorem send_only_for_parsed_candidates:
  "(readline w st = (raw, st1) \<longrightarrow> read_attempt w sender st = (a, st') \<longrightarrow>
      (sendable raw \<longrightarrow>
         (\<exists>ns. iso_z_to_ns (last (split_comma (strip raw))) = Inr ns \<and>
               sends st' =
                 sends st @ [Ran (curl_cmd sender (line_protocol_of (split_comma (strip raw)) ns)) 10])) \<and>
      (\<not> sendable raw \<longrightarrow> sends st' = sends st)) \<and>
   length (sends (state_of (process_files fuel w0 start_file sender0 wait_time))) =
     length (filter is_sendable_Read
               (events (state_of (process_files fuel w0 start_file sender0 wait_time))))"
proof -
  have "sends st' = sends st" if "readline w st = (raw, st1)" "read_attempt w sender st = (a, st')"
    "\<not> sendable raw"
    using read_attempt_Ran [OF that(1,2)] that(3) by simp
  moreover have "\<exists>ns. iso_z_to_ns (last (split_comma (strip raw))) = Inr ns \<and>
               sends st' =
                 sends st @ [Ran (curl_cmd sender (line_protocol_of (split_comma (strip raw)) ns)) 10]"
    if "readline w st = (raw, st1)" "read_attempt w sender st = (a, st')" "sendable raw"
    using read_attempt_Ran [OF that(1,2)] sendable_Inr [OF that(3)] that(3) by auto
  moreover have "length (sends (state_of (process_files fuel w0 start_file sender0 wait_time))) =
     length (filter is_sendable_Read
               (events (state_of (process_files fuel w0 start_file sender0 wait_time))))"
    using loops_balanced(1) [of "initial_state start_file" fuel w0 sender0 wait_time]
    by (simp add: process_files_def initial_state_def sends_def)
  ultimately show ?thesis
    by blast
qed

lemma world_short_first_read:
  "readline world_short (initial_state ''/d/a.txt'') =
     (short_line @ nl,
      (initial_state ''/d/a.txt'')\<lparr>handle_pos := 28, events := [Read (short_line @ nl)]\<rparr>)"
  by (simp add: readline_def world_short_def static_world_def initial_state_def short_line_def nl_def
      Let_def)

lemma world_short_second_read:
  "readline world_short ((initial_state ''/d/a.txt'')\<lparr>handle_pos := 28\<rparr>) =
     (good_line @ nl,
      (initial_state ''/d/a.txt'')\<lparr>handle_pos := 109, events := [Read (good_line @ nl)]\<rparr>)"
  by (simp add: readline_def world_short_def static_world_def initial_state_def short_line_def nl_def
      good_line_def Let_def)

lemma sendable_examples:
  "\<not> sendable (short_line @ nl)" "sendable (good_line @ nl)"
  by code_simp+

theorem send_only_for_parsed_candidates_witness:
  "\<not> sendable (short_line @ nl) \<and>
   sends (snd (read_attempt world_short (Sender INFLUXDB_URL) (initial_state ''/d/a.txt''))) =
     sends (initial_state ''/d/a.txt'') \<and>
   sendable (good_line @ nl) \<and>
   (\<exists>ns. iso_z_to_ns (last (split_comma (strip (good_line @ nl)))) = Inr ns \<and>
      sends (snd (read_attempt world_short (Sender INFLUXDB_URL)
                    ((initial_state ''/d/a.txt'')\<lparr>handle_pos := 28\<rparr>))) =
        sends ((initial_state ''/d/a.txt'')\<lparr>handle_pos := 28\<rparr>) @
        [Ran (curl_cmd (Sender INFLUXDB_URL)
                (line_protocol_of (split_comma (strip (good_line @ nl))) ns)) 10]) \<and>
   length (sends (state_of (process_files 3 world_short ''/d/a.txt'' (Sender INFLUXDB_URL) 60))) =
     length (filter is_sendable_Read
               (events (state_of (process_files 3 world_short ''/d/a.txt'' (Sender INFLUXDB_URL) 60)))) \<and>
   sends (state_of (process_files 3 world_short ''/d/a.txt'' (Sender INFLUXDB_URL) 60)) =
     [Ran [''curl'', ''-f'', ''-sS'', ''-XPOST'', INFLUXDB_URL, ''--data-binary'', good_protocol] 10]"
proof -
  let ?S = "Sender INFLUXDB_URL"
  let ?st = "initial_state ''/d/a.txt''"
  let ?st2 = "?st\<lparr>handle_pos := 28\<rparr>"
  obtain a st' where a: "read_attempt world_short ?S ?st = (a, st')"
    by (cases "read_attempt world_short ?S ?st")
  obtain a2 st2' where a2: "read_attempt world_short ?S ?st2 = (a2, st2')"
    by (cases "read_attempt world_short ?S ?st2")
  note T1 = send_only_for_parsed_candidates
    [where w = world_short and st = ?st and raw = "short_line @ nl" and sender = ?S and a = a
       and st' = st' and fuel = 3 and ?w0.0 = world_short and start_file = "''/d/a.txt''"
       and ?sender0.0 = ?S and wait_time = 60,
     THEN conjunct1, THEN mp, THEN mp, OF world_short_first_read a]
  note T2 = send_only_for_parsed_candidates
    [where w = world_short and st = ?st2 and raw = "good_line @ nl" and sender = ?S and a = a2
       and st' = st2' and fuel = 3 and ?w0.0 = world_short and start_file = "''/d/a.txt''"
       and ?sender0.0 = ?S and wait_time = 60]
  note p1 = T1 [THEN conjunct2, THEN mp, OF sendable_examples(1)]
  note p2 = T2 [THEN conjunct1, THEN mp, THEN mp, OF world_short_second_read a2,
      THEN conjunct1, THEN mp, OF sendable_examples(2)]
  note p3 = T2 [THEN conjunct2]
  have p4: "sends (state_of (process_files 3 world_short ''/d/a.txt'' ?S 60)) =
     [Ran [''curl'', ''-f'', ''-sS'', ''-XPOST'', INFLUXDB_URL, ''--data-binary'', good_protocol] 10]"
    by (simp add: world_short_run sends_def)
  from p1 a have q1: "sends (snd (read_attempt world_short ?S ?st)) = sends ?st"
    by simp
  from p2 a2 have q2: "\<exists>ns. iso_z_to_ns (last (split_comma (strip (good_line @ nl)))) = Inr ns \<and>
      sends (snd (read_attempt world_short ?S ?st2)) =
        sends ?st2 @
        [Ran (curl_cmd ?S (line_protocol_of (split_comma (strip (good_line @ nl))) ns)) 10]"
    by simp
  from sendable_examples q1 q2 p3 p4 show ?thesis
    by (intro conjI)
qed

section \<open>Exceptions leave the loops and end the process\<close>






lemma pass_first_processed:
  assumes "read_attempt w sender st = (Processed, st1)"
  shows "inner_loop (Suc n) w sender wait_time st = inner_loop n w sender wait_time st1"
  using assms by (simp add: inner_body_def)

lemma pass_second_processed:
  assumes "read_attempt w sender st = (Not_Processed, st1)"
    and "sleep w wait_time st1 = (None, st2)"
    and "read_attempt w sender st2 = (Processed, st3)"
  shows "inner_loop (Suc n) w sender wait_time st = inner_loop n w sender wait_time st3"
  using assms by (simp add: inner_body_def)










section \<open>A time that cannot be converted\<close>








section \<open>Stripping\<close>

lemma strip_ends:
  "strip s = [] \<or> (\<not> isspace (hd (strip s)) \<and> \<not> isspace (last (strip s)))"
proof (cases "strip s = []")
  case True
  then show ?thesis by simp
next
  case False
  let ?u = "dropWhile isspace s"
  let ?t = "dropWhile isspace (rev ?u)"
  from False have t: "?t \<noteq> []"
    by (simp add: strip_def)
  then have "\<not> isspace (hd ?t)"
    by (rule hd_dropWhile)
  then have l: "\<not> isspace (last (strip s))"
    using t by (simp add: strip_def last_rev)
  from t have u: "?u \<noteq> []"
    by (cases "dropWhile isspace s") simp_all
  then have hu: "\<not> isspace (hd ?u)"
    by (rule hd_dropWhile)
  from t obtain k where k: "rev ?u = takeWhile isspace (rev ?u) @ ?t"
    by simp
  have "?u = rev ?t @ rev (takeWhile isspace (rev ?u))"
    by (metis k rev_append rev_rev_ident)
  with t have "hd ?u = hd (rev ?t)"
    by (metis hd_append2 rev_is_Nil_conv)
  with hu have "\<not> isspace (hd (strip s))"
    by (simp add: strip_def)
  with l show ?thesis by simp
qed

lemma strip_keeps_core:
  assumes "\<forall>c\<in>set pre. isspace c" and "m \<noteq> []" and "\<not> isspace (hd m)" and "\<not> isspace (last m)"
  shows "strip (pre @ m @ rest) = m @ rev (dropWhile isspace (rev rest))"
proof -
  from assms(2,3) have "dropWhile isspace (m @ rest) = m @ rest"
    by (cases m) auto
  with assms(1) have d: "dropWhile isspace (pre @ m @ rest) = m @ rest"
    by (simp add: dropWhile_append)
  from assms(2,4) have r: "dropWhile isspace (rev m) = rev m"
    by (cases m rule: rev_cases) auto
  have s: "strip (pre @ m @ rest) = rev (dropWhile isspace (rev rest @ rev m))"
    by (simp only: strip_def d rev_append)
  show ?thesis
  proof (cases "\<forall>x\<in>set (rev rest). isspace x")
    case True
    then have "dropWhile isspace (rev rest @ rev m) = rev m"
      by (simp only: dropWhile_append2 r)
    moreover from True have "dropWhile isspace (rev rest) = []"
      by simp
    ultimately show ?thesis
      by (simp add: s)
  next
    case False
    then have "dropWhile isspace (rev rest @ rev m) = dropWhile isspace (rev rest) @ rev m"
      by (metis dropWhile_append1)
    then show ?thesis
      by (simp add: s)
  qed
qed

lemma readline_text_newline:
  "CHR 0x0A \<notin> set (butlast (readline_text s))"
  by (induction s) auto

lemma butlast_dropWhile:
  assumes "x \<notin> set (butlast s)"
  shows "x \<notin> set (butlast (dropWhile P s))"
proof (cases "dropWhile P s = []")
  case True
  show ?thesis unfolding True by simp
next
  case False
  have "s = takeWhile P s @ dropWhile P s"
    by simp
  then have "butlast s = takeWhile P s @ butlast (dropWhile P s)"
    using False by (metis butlast_append)
  with assms show ?thesis
    by (metis Un_iff set_append)
qed

lemma rstrip_removes:
  assumes "x \<notin> set (butlast u)" and "P x"
  shows "x \<notin> set (rev (dropWhile P (rev u)))"
proof (cases u rule: rev_cases)
  case Nil
  then show ?thesis by simp
next
  case (snoc ys y)
  with assms(1) have x: "x \<notin> set ys"
    by simp
  show ?thesis
  proof (cases "P y")
    case True
    then have "set (dropWhile P (rev u)) \<subseteq> set ys"
      using snoc set_dropWhileD [of _ P "rev ys"] by auto
    with x show ?thesis by auto
  next
    case False
    with assms(2) have "x \<noteq> y" by auto
    with x snoc False show ?thesis by simp
  qed
qed

lemma strip_readline_text:
  "CHR 0x0A \<notin> set (strip (readline_text s))"
  unfolding strip_def
  by (rule rstrip_removes [OF butlast_dropWhile [OF readline_text_newline]])
    (simp add: isspace_def)

lemma split_comma_not_Nil:
  "split_comma s \<noteq> []"
  by (cases s) (auto split: list.splits)

lemma split_comma_subset:
  "p \<in> set (split_comma s) \<Longrightarrow> set p \<subseteq> set s"
proof (induction s arbitrary: p)
  case Nil
  then show ?case by simp
next
  case (Cons c cs)
  show ?case
  proof (cases "c = CHR '',''")
    case True
    with Cons show ?thesis by auto
  next
    case False
    obtain q qs where q: "split_comma cs = q # qs"
      using split_comma_not_Nil [of cs] by (cases "split_comma cs") auto
    with False Cons.prems have "p = c # q \<or> p \<in> set qs"
      by simp
    with Cons.IH [of q] Cons.IH [of p] q show ?thesis
      by auto
  qed
qed

lemma split_comma_single_empty:
  "split_comma s = [[]] \<Longrightarrow> s = []"
  using split_comma_not_Nil by (cases s) (auto split: if_splits list.splits)

lemma split_comma_last:
  "last (split_comma s) \<noteq> [] \<Longrightarrow> s \<noteq> [] \<and> last (last (split_comma s)) = last s"
proof (induction s)
  case Nil
  then show ?case by simp
next
  case (Cons c cs)
  obtain q qs where q: "split_comma cs = q # qs"
    using split_comma_not_Nil [of cs] by (cases "split_comma cs") auto
  show ?case
  proof (cases "c = CHR '',''")
    case True
    with Cons.prems q have "last (split_comma cs) \<noteq> []"
      by simp
    from Cons.IH [OF this] True q show ?thesis
      by simp
  next
    case False
    show ?thesis
    proof (cases "qs = []")
      case qs: True
      show ?thesis
      proof (cases "q = []")
        case True
        with qs q have "cs = []"
          by (simp add: split_comma_single_empty)
        with False show ?thesis by simp
      next
        case q': False
        with qs q have "last (split_comma cs) \<noteq> []"
          by simp
        from Cons.IH [OF this] q qs q' False show ?thesis
          by simp
      qed
    next
      case qs: False
      with Cons.prems q False have "last (split_comma cs) \<noteq> []"
        by simp
      from Cons.IH [OF this] q qs False show ?thesis
        by simp
    qed
  qed
qed

lemma last_field_stripped:
  "last (split_comma (strip s)) = [] \<or> \<not> isspace (last (last (split_comma (strip s))))"
  using split_comma_last [of "strip s"] strip_ends [of s] by auto

lemma read_attempt_strips:
  assumes "raw = readline_text (drop (handle_pos st) (file_text w (clock st) (current st)))"
    and "raw \<noteq> []"
  shows "read_attempt w sender st =
           (if startswith (strip raw) MEASUREMENT
            then (case process_line w (strip raw) sender (line_no st + 1)
                         (st\<lparr>handle_pos := handle_pos st + length raw,
                             events := events st @ [Read raw], line_no := line_no st + 1\<rparr>) of
                    (Some e, st3) \<Rightarrow> (Failed e, st3)
                  | (None, st3) \<Rightarrow> (Processed, st3))
            else (Not_Processed,
                  st\<lparr>handle_pos := handle_pos st + length raw,
                      events := events st @ [Read raw], line_no := line_no st + 1\<rparr>))"
  using assms by (simp add: read_attempt_def readline_def Let_def)

lemma marker_ends:
  "MEASUREMENT \<noteq> []" "\<not> isspace (hd MEASUREMENT)" "\<not> isspace (last MEASUREMENT)"
  by (simp_all add: MEASUREMENT_def isspace_def)

text \<open>
  Claim C10. A line that \<open>readline\<close> returns is stripped before anything else is done with
  it: the marker is looked for at the start of the stripped line, and \<open>process_line\<close> is
  given the stripped line. So a line in which only whitespace stands before the marker
  is a candidate; the stripped line holds no line feed, hence none of its fields does;
  and the last field of a stripped line is empty or ends in a character that is not
  whitespace.
\<close>

theorem lines_are_stripped:
  "(raw = readline_text (drop (handle_pos st) (file_text w (clock st) (current st))) \<longrightarrow>
    raw \<noteq> [] \<longrightarrow>
      read_attempt w sender st =
        (if startswith (strip raw) MEASUREMENT
         then (case process_line w (strip raw) sender (line_no st + 1)
                      (st\<lparr>handle_pos := handle_pos st + length raw,
                          events := events st @ [Read raw], line_no := line_no st + 1\<rparr>) of
                 (Some e, st3) \<Rightarrow> (Failed e, st3)
               | (None, st3) \<Rightarrow> (Processed, st3))
         else (Not_Processed,
               st\<lparr>handle_pos := handle_pos st + length raw,
                   events := events st @ [Read raw], line_no := line_no st + 1\<rparr>))) \<and>
   ((\<forall>c\<in>set pre. isspace c) \<longrightarrow> startswith (strip (pre @ MEASUREMENT @ rest)) MEASUREMENT) \<and>
   CHR 0x0A \<notin> set (strip (readline_text s)) \<and>
   (\<forall>p\<in>set (split_comma (strip (readline_text s))). CHR 0x0A \<notin> set p) \<and>
   (last (split_comma (strip s')) = [] \<or> \<not> isspace (last (last (split_comma (strip s')))))"
proof -
  have "startswith (strip (pre @ MEASUREMENT @ rest)) MEASUREMENT" if "\<forall>c\<in>set pre. isspace c"
    by (simp add: strip_keeps_core [OF that marker_ends] startswith_def)
  moreover have "CHR 0x0A \<notin> set p" if "p \<in> set (split_comma (strip (readline_text s)))" for p
    using split_comma_subset [OF that] strip_readline_text [of s] by auto
  ultimately show ?thesis
    using read_attempt_strips [where raw = raw and st = st and w = w and sender = sender]
      strip_readline_text [of s] last_field_stripped [of s']
    by blast
qed

lemma world_indented_run:
  "process_files 2 world_indented ''/d/a.txt'' (Sender INFLUXDB_URL) 60 =
     Running
       \<lparr>current = ''/d/a.txt'', handle_pos = 84, line_no = 1, clock = 0,
        events =
          [Opened ''/d/a.txt'',
           Logged (''2025-06-09 22:00:00 GMT [OPEN] Processing file: /d/a.txt'' @ nl),
           Read (indented_line @ nl),
           Printed (''[PARSED] Line 1 : host=host1, T1=1,T2=2,T3=3,T4=4,Pwr1=5,Pwr2=6,Pwr3=7,Pwr4=8,LEDamp=9,LEDwidth=10,Threshold=11,V1=12,V2=13,V3=14,V4=15, time=1749506292000000000''),
           Ran [''curl'', ''-f'', ''-sS'', ''-XPOST'', INFLUXDB_URL, ''--data-binary'', good_protocol] 10,
           Logged (''2025-06-09 22:00:00 GMT [PARSED] Line 1 : '' @ good_line @ nl)]\<rparr>"
  by code_simp

lemma indented_line_facts:
  "strip (indented_line @ nl) = good_line"
  "last (split_comma (strip (indented_line @ nl))) = ''2025-06-09T21:58:12Z''"
  by code_simp+

theorem lines_are_stripped_witness:
  "read_attempt world_indented (Sender INFLUXDB_URL) (initial_state ''/d/a.txt'') =
     (if startswith (strip (indented_line @ nl)) MEASUREMENT
      then (case process_line world_indented (strip (indented_line @ nl)) (Sender INFLUXDB_URL)
                   (line_no (initial_state ''/d/a.txt'') + 1)
                   ((initial_state ''/d/a.txt'')
                      \<lparr>handle_pos := handle_pos (initial_state ''/d/a.txt'') + length (indented_line @ nl),
                       events := events (initial_state ''/d/a.txt'') @ [Read (indented_line @ nl)],
                       line_no := line_no (initial_state ''/d/a.txt'') + 1\<rparr>) of
              (Some e, st3) \<Rightarrow> (Failed e, st3)
            | (None, st3) \<Rightarrow> (Processed, st3))
      else (Not_Processed,
            (initial_state ''/d/a.txt'')
              \<lparr>handle_pos := handle_pos (initial_state ''/d/a.txt'') + length (indented_line @ nl),
               events := events (initial_state ''/d/a.txt'') @ [Read (indented_line @ nl)],
               line_no := line_no (initial_state ''/d/a.txt'') + 1\<rparr>)) \<and>
   startswith (strip (''  '' @ MEASUREMENT @ '',host1 '')) MEASUREMENT \<and>
   CHR 0x0A \<notin> set (strip (readline_text (indented_line @ nl))) \<and>
   list_all (\<lambda>p. CHR 0x0A \<notin> set p) (split_comma (strip (readline_text (indented_line @ nl)))) \<and>
   (last (split_comma (strip (indented_line @ nl))) = [] \<or>
    \<not> isspace (last (last (split_comma (strip (indented_line @ nl)))))) \<and>
   strip (indented_line @ nl) = good_line \<and>
   last (split_comma (strip (indented_line @ nl))) = ''2025-06-09T21:58:12Z'' \<and>
   sends (state_of (process_files 2 world_indented ''/d/a.txt'' (Sender INFLUXDB_URL) 60)) =
     [Ran [''curl'', ''-f'', ''-sS'', ''-XPOST'', INFLUXDB_URL, ''--data-binary'', good_protocol] 10]"
proof -
  let ?S = "Sender INFLUXDB_URL"
  let ?st = "initial_state ''/d/a.txt''"
  note T = lines_are_stripped
    [where w = world_indented and raw = "indented_line @ nl" and st = ?st and sender = ?S
       and pre = "''  ''" and rest = "'',host1 ''" and s = "indented_line @ nl"
       and s' = "indented_line @ nl"]
  have r: "indented_line @ nl =
           readline_text (drop (handle_pos ?st) (file_text world_indented (clock ?st) (current ?st)))"
    by (simp add: world_indented_def static_world_def initial_state_def indented_line_def
        good_line_def nl_def)
  have ne: "indented_line @ nl \<noteq> []"
    by (simp add: nl_def)
  have sp: "\<forall>c\<in>set ''  ''. isspace c"
    by (simp add: isspace_def)
  note p1 = T [THEN conjunct1, THEN mp, THEN mp, OF r ne]
  note p2 = T [THEN conjunct2, THEN conjunct1, THEN mp, OF sp]
  note p3 = T [THEN conjunct2, THEN conjunct2, THEN conjunct1]
  from T [THEN conjunct2, THEN conjunct2, THEN conjunct2, THEN conjunct1]
  have p4: "list_all (\<lambda>p. CHR 0x0A \<notin> set p) (split_comma (strip (readline_text (indented_line @ nl))))"
    by (simp only: list_all_iff)
  note p5 = T [THEN conjunct2, THEN conjunct2, THEN conjunct2, THEN conjunct2]
  have p6: "sends (state_of (process_files 2 world_indented ''/d/a.txt'' ?S 60)) =
     [Ran [''curl'', ''-f'', ''-sS'', ''-XPOST'', INFLUXDB_URL, ''--data-binary'', good_protocol] 10]"
    by (simp add: world_indented_run sends_def)
  show ?thesis
    by (rule conjI [OF p1 conjI [OF p2 conjI [OF p3 conjI [OF p4 conjI [OF p5
          conjI [OF indented_line_facts(1) conjI [OF indented_line_facts(2) p6]]]]]]])
qed

section \<open>What stops the script and what does not\<close>



lemma sleep_ok:
  assumes "0 \<le> secs" and "secs \<le> 9223372036" and "\<not> interrupt w (clock st)"
  shows "sleep w secs st = (None, st\<lparr>events := events st @ [Sleep secs], clock := clock st + 1\<rparr>)"
  using assms by (simp add: sleep_def Let_def)




















end
